theory Spec2Isabelle
  imports Main
begin

section \<open>daystats: a shallow embedding of \<^verbatim>\<open>src/daystats/daystats.py\<close>\<close>

subsection \<open>Python values and exceptions\<close>

text \<open>
  The exceptions the modelled code can raise. A function that may raise returns
  \<open>error + 'a\<close>, with \<open>Inl\<close> for the exception.
\<close>

datatype error = KeyError | TypeError | AttributeError | ValueError | OverflowError

text \<open>
  A decoded JSON value, as \<^verbatim>\<open>json.loads\<close> builds it. Numbers are integers (floating
  point is outside the model). An object is an association list read with \<open>map_of\<close>.
\<close>

datatype json =
    JNull
  | JBool bool
  | JInt int
  | JStr string
  | JArr "json list"
  | JObj "(string \<times> json) list"

type_synonym dict = "(string \<times> json) list"

subsection \<open>Naive datetimes of the standard library\<close>

record datetime =
  year :: int
  month :: int
  day :: int
  hour :: int
  minute :: int
  second :: int
  microsecond :: int

definition is_leap :: "int \<Rightarrow> bool" where
  "is_leap y = (y mod 4 = 0 \<and> (y mod 100 \<noteq> 0 \<or> y mod 400 = 0))"

definition days_in_month :: "int \<Rightarrow> int \<Rightarrow> int" where
  "days_in_month y m =
     (if m = 2 then (if is_leap y then 29 else 28)
      else if m = 4 \<or> m = 6 \<or> m = 9 \<or> m = 11 then 30 else 31)"

definition valid_date :: "int \<Rightarrow> int \<Rightarrow> int \<Rightarrow> bool" where
  "valid_date y m d =
     (1 \<le> y \<and> y \<le> 9999 \<and> 1 \<le> m \<and> m \<le> 12 \<and> 1 \<le> d \<and> d \<le> days_in_month y m)"

definition valid_time :: "int \<Rightarrow> int \<Rightarrow> int \<Rightarrow> int \<Rightarrow> bool" where
  "valid_time h mi s us =
     (0 \<le> h \<and> h \<le> 23 \<and> 0 \<le> mi \<and> mi \<le> 59 \<and> 0 \<le> s \<and> s \<le> 59 \<and> 0 \<le> us \<and> us \<le> 999999)"

definition valid_datetime :: "datetime \<Rightarrow> bool" where
  "valid_datetime t =
     (valid_date (year t) (month t) (day t) \<and>
      valid_time (hour t) (minute t) (second t) (microsecond t))"

text \<open>
  \<^verbatim>\<open>datetime.replace(...)\<close> builds a new object from the changed fields and the
  constructor checks every field: a value out of range raises \<^verbatim>\<open>ValueError\<close>. Before
  that, the library converts the argument to a C \<^verbatim>\<open>int\<close>: an integer that does not fit
  32 bits raises \<^verbatim>\<open>OverflowError\<close>.
\<close>

definition dt_new :: "datetime \<Rightarrow> error + datetime" where
  "dt_new t = (if valid_datetime t then Inr t else Inl ValueError)"

definition fits_c_int :: "int \<Rightarrow> bool" where
  "fits_c_int v = (- 2147483648 \<le> v \<and> v \<le> 2147483647)"

definition replace_year :: "int \<Rightarrow> datetime \<Rightarrow> error + datetime" where
  "replace_year y t = (if fits_c_int y then dt_new (t\<lparr>year := y\<rparr>) else Inl OverflowError)"

definition replace_month :: "int \<Rightarrow> datetime \<Rightarrow> error + datetime" where
  "replace_month m t = (if fits_c_int m then dt_new (t\<lparr>month := m\<rparr>) else Inl OverflowError)"

definition replace_day :: "int \<Rightarrow> datetime \<Rightarrow> error + datetime" where
  "replace_day d t = (if fits_c_int d then dt_new (t\<lparr>day := d\<rparr>) else Inl OverflowError)"

definition replace_time :: "int \<Rightarrow> int \<Rightarrow> int \<Rightarrow> int \<Rightarrow> datetime \<Rightarrow> error + datetime" where
  "replace_time h mi s us t =
     dt_new (t\<lparr>hour := h, minute := mi, second := s, microsecond := us\<rparr>)"

subsection \<open>\<^verbatim>\<open>_build_bookend_times\<close>\<close>

text \<open>
  \<^verbatim>\<open>if year: now = now.replace(year=year)\<close> for an \<^verbatim>\<open>int | None\<close> argument:
  the test is truthiness, so \<^verbatim>\<open>None\<close> and \<^verbatim>\<open>0\<close> both leave \<open>now\<close> as it is.
\<close>

definition override ::
  "int option \<Rightarrow> (int \<Rightarrow> datetime \<Rightarrow> error + datetime) \<Rightarrow> datetime \<Rightarrow> error + datetime" where
  "override a rep t =
     (case a of None \<Rightarrow> Inr t | Some v \<Rightarrow> if v \<noteq> 0 then rep v t else Inr t)"

text \<open>
  The first argument is the value of \<^verbatim>\<open>datetime.datetime.now()\<close>. The three
  \<^verbatim>\<open>replace\<close> calls run one after the other, each on the result of the one before.
\<close>

definition build_bookend_times ::
  "datetime \<Rightarrow> int option \<Rightarrow> int option \<Rightarrow> int option \<Rightarrow> error + (datetime \<times> datetime)" where
  "build_bookend_times now year' month' day' =
     (case override year' replace_year now of
        Inl e \<Rightarrow> Inl e
      | Inr now1 \<Rightarrow>
     (case override month' replace_month now1 of
        Inl e \<Rightarrow> Inl e
      | Inr now2 \<Rightarrow>
     (case override day' replace_day now2 of
        Inl e \<Rightarrow> Inl e
      | Inr now3 \<Rightarrow>
     (case replace_time 0 0 0 0 now3 of
        Inl e \<Rightarrow> Inl e
      | Inr start_dt \<Rightarrow>
     (case replace_time 23 59 59 0 now3 of
        Inl e \<Rightarrow> Inl e
      | Inr end_dt \<Rightarrow> Inr (start_dt, end_dt))))))"

text \<open>
  The calendar date a call asks for: each field that is present and non-zero
  overrides the field of \<open>now\<close>.
\<close>

definition target :: "int \<Rightarrow> int option \<Rightarrow> int" where
  "target today a = (case a of None \<Rightarrow> today | Some v \<Rightarrow> if v \<noteq> 0 then v else today)"

definition mk_datetime :: "int \<Rightarrow> int \<Rightarrow> int \<Rightarrow> int \<Rightarrow> int \<Rightarrow> int \<Rightarrow> int \<Rightarrow> datetime" where
  "mk_datetime y m d h mi s us =
     \<lparr>year = y, month = m, day = d, hour = h, minute = mi, second = s, microsecond = us\<rparr>"

subsection \<open>Comparison, arithmetic and formatting of datetimes\<close>

text \<open>
  Two naive datetimes compare as the tuples of their seven fields, lexicographically.
\<close>

fun lex_less :: "int list \<Rightarrow> int list \<Rightarrow> bool" where
  "lex_less [] [] = False"
| "lex_less [] (y # ys) = True"
| "lex_less (x # xs) [] = False"
| "lex_less (x # xs) (y # ys) = (x < y \<or> (x = y \<and> lex_less xs ys))"

definition dt_key :: "datetime \<Rightarrow> int list" where
  "dt_key t = [year t, month t, day t, hour t, minute t, second t, microsecond t]"

definition dt_gt :: "datetime \<Rightarrow> datetime \<Rightarrow> bool" where
  "dt_gt a b = lex_less (dt_key b) (dt_key a)"

text \<open>
  A \<^verbatim>\<open>timedelta\<close> is a whole number of microseconds. \<^verbatim>\<open>datetime + timedelta\<close> moves
  the time of day and carries whole days into the date; a result before year 1 or after
  year 9999 raises \<^verbatim>\<open>OverflowError\<close>.
\<close>

type_synonym timedelta = int

definition timedelta_hours :: "int \<Rightarrow> timedelta" where
  "timedelta_hours h = h * 3600 * 1000000"

type_synonym date = "int \<times> int \<times> int"

fun next_day :: "date \<Rightarrow> date option" where
  "next_day (y, m, d) =
     (if d < days_in_month y m then Some (y, m, d + 1)
      else if m < 12 then Some (y, m + 1, 1)
      else if y < 9999 then Some (y + 1, 1, 1)
      else None)"

fun prev_day :: "date \<Rightarrow> date option" where
  "prev_day (y, m, d) =
     (if 1 < d then Some (y, m, d - 1)
      else if 1 < m then Some (y, m - 1, days_in_month y (m - 1))
      else if 1 < y then Some (y - 1, 12, 31)
      else None)"

primrec repeat_opt :: "nat \<Rightarrow> ('a \<Rightarrow> 'a option) \<Rightarrow> 'a \<Rightarrow> 'a option" where
  "repeat_opt 0 f x = Some x"
| "repeat_opt (Suc n) f x = (case f x of None \<Rightarrow> None | Some x' \<Rightarrow> repeat_opt n f x')"

definition shift_days :: "int \<Rightarrow> date \<Rightarrow> date option" where
  "shift_days n dt =
     (if 0 \<le> n then repeat_opt (nat n) next_day dt else repeat_opt (nat (- n)) prev_day dt)"

definition dt_add :: "datetime \<Rightarrow> timedelta \<Rightarrow> error + datetime" where
  "dt_add t delta =
     (let total = ((hour t * 60 + minute t) * 60 + second t) * 1000000 + microsecond t + delta;
          days = total div 86400000000;
          rest = total mod 86400000000
      in case shift_days days (year t, month t, day t) of
           None \<Rightarrow> Inl OverflowError
         | Some (y, m, d) \<Rightarrow>
             Inr \<lparr>year = y, month = m, day = d,
                  hour = rest div 3600000000,
                  minute = rest div 60000000 mod 60,
                  second = rest div 1000000 mod 60,
                  microsecond = rest mod 1000000\<rparr>)"

text \<open>
  \<^verbatim>\<open>datetime.isoformat()\<close>: \<^verbatim>\<open>YYYY-MM-DDTHH:MM:SS\<close>, followed by \<^verbatim>\<open>.ffffff\<close> when the
  microsecond is not zero. The fields of a datetime built by the library are in range,
  so they are printed as natural numbers.
\<close>

definition digit_char :: "nat \<Rightarrow> char" where
  "digit_char n = char_of (48 + n mod 10)"

fun zero_pad :: "nat \<Rightarrow> nat \<Rightarrow> string" where
  "zero_pad 0 n = (if n = 0 then [] else zero_pad 0 (n div 10) @ [digit_char n])"
| "zero_pad (Suc k) n = zero_pad k (n div 10) @ [digit_char n]"

definition isoformat :: "datetime \<Rightarrow> string" where
  "isoformat t =
     zero_pad 4 (nat (year t)) @ ''-'' @ zero_pad 2 (nat (month t)) @ ''-'' @
     zero_pad 2 (nat (day t)) @ ''T'' @ zero_pad 2 (nat (hour t)) @ '':'' @
     zero_pad 2 (nat (minute t)) @ '':'' @ zero_pad 2 (nat (second t)) @
     (if microsecond t = 0 then [] else ''.'' @ zero_pad 6 (nat (microsecond t)))"

subsection \<open>Operations on decoded JSON\<close>

text \<open>
  \<^verbatim>\<open>x[k]\<close> with a string key: a missing key of a dict is \<^verbatim>\<open>KeyError\<close>; a list, a
  string, a number, a boolean or \<^verbatim>\<open>None\<close> cannot be indexed by a string
  (\<^verbatim>\<open>TypeError\<close>).
\<close>

fun subscript :: "json \<Rightarrow> string \<Rightarrow> error + json" where
  "subscript (JObj kvs) k = (case map_of kvs k of None \<Rightarrow> Inl KeyError | Some v \<Rightarrow> Inr v)"
| "subscript j k = Inl TypeError"

text \<open>\<^verbatim>\<open>x[k1][k2]...\<close>, left to right.\<close>

fun path :: "json \<Rightarrow> string list \<Rightarrow> error + json" where
  "path j [] = Inr j"
| "path j (k # ks) = (case subscript j k of Inl e \<Rightarrow> Inl e | Inr v \<Rightarrow> path v ks)"

text \<open>
  \<^verbatim>\<open>for x in j\<close>: a list yields its elements, a dict its keys, a string its
  characters; the other values are not iterable.
\<close>

fun py_iter :: "json \<Rightarrow> error + json list" where
  "py_iter (JArr xs) = Inr xs"
| "py_iter (JObj kvs) = Inr (map (\<lambda>kv. JStr (fst kv)) kvs)"
| "py_iter (JStr s) = Inr (map (\<lambda>c. JStr [c]) s)"
| "py_iter j = Inl TypeError"

text \<open>Truthiness, as \<^verbatim>\<open>while more\<close> reads it.\<close>

fun truthy :: "json \<Rightarrow> bool" where
  "truthy JNull = False"
| "truthy (JBool b) = b"
| "truthy (JInt n) = (n \<noteq> 0)"
| "truthy (JStr s) = (s \<noteq> [])"
| "truthy (JArr xs) = (xs \<noteq> [])"
| "truthy (JObj kvs) = (kvs \<noteq> [])"

text \<open>
  A string method (\<^verbatim>\<open>.rstrip\<close>, \<^verbatim>\<open>.lower\<close>) called on a value: only a string has
  it, anything else raises \<^verbatim>\<open>AttributeError\<close>.
\<close>

fun str_of :: "json \<Rightarrow> error + string" where
  "str_of (JStr s) = Inr s"
| "str_of j = Inl AttributeError"

definition rstrip :: "char \<Rightarrow> string \<Rightarrow> string" where
  "rstrip c s = rev (dropWhile (\<lambda>x. x = c) (rev s))"

text \<open>
  \<^verbatim>\<open>str.lower()\<close> on ASCII text: each of the letters A to Z becomes the letter a to z
  at the same place of the alphabet, every other character stays.
\<close>

definition upper_letters :: string where
  "upper_letters = ''ABCDEFGHIJKLMNOPQRSTUVWXYZ''"

definition lower_letters :: string where
  "lower_letters = ''abcdefghijklmnopqrstuvwxyz''"

definition lower_char :: "char \<Rightarrow> char" where
  "lower_char c =
     (case map_of (zip upper_letters lower_letters) c of None \<Rightarrow> c | Some l \<Rightarrow> l)"

definition lower :: "string \<Rightarrow> string" where
  "lower s = map lower_char s"

text \<open>A \<^verbatim>\<open>for\<close> loop whose body may raise: the first exception ends the loop.\<close>

fun for_each :: "('a \<Rightarrow> 'b \<Rightarrow> error + 'b) \<Rightarrow> 'a list \<Rightarrow> 'b \<Rightarrow> error + 'b" where
  "for_each body [] acc = Inr acc"
| "for_each body (x # xs) acc =
     (case body x acc of Inl e \<Rightarrow> Inl e | Inr acc' \<Rightarrow> for_each body xs acc')"

subsection \<open>The data classes\<close>

text \<open>
  The field annotations of a data class are not checked when an object is built: a field
  holds whatever value the response had at that place, so the fields filled from a
  response are JSON values.
\<close>

record Repo =
  owner :: json
  name :: json

record Contributions =
  commits :: json
  issues :: json
  pullrequests :: json
  reviews :: json
  pr_repos :: "Repo list"

record PullRequest =
  reponame :: json
  additions :: json
  deletions :: json
  files :: json
  created_at :: json
  number :: json
  url :: json

text \<open>
  \<open>pr_repos\<close> is a \<^verbatim>\<open>set[Repo]\<close>, kept here as the list of its elements in the order
  they were first added. \<^verbatim>\<open>set.add\<close> hashes the new element (a list or a dict in a field is
  unhashable: \<^verbatim>\<open>TypeError\<close>) and leaves the set as it is when an equal element is
  there. Two \<^verbatim>\<open>Repo\<close>s are equal when owner and name are, by \<^verbatim>\<open>==\<close>: strings compare
  character by character, and booleans count as the numbers 0 and 1.
\<close>

fun hashable :: "json \<Rightarrow> bool" where
  "hashable (JArr xs) = False"
| "hashable (JObj kvs) = False"
| "hashable j = True"

fun as_number :: "json \<Rightarrow> int option" where
  "as_number (JBool b) = Some (if b then 1 else 0)"
| "as_number (JInt n) = Some n"
| "as_number j = None"

definition py_eq :: "json \<Rightarrow> json \<Rightarrow> bool" where
  "py_eq a b =
     (case (as_number a, as_number b) of
        (Some x, Some y) \<Rightarrow> x = y
      | (None, None) \<Rightarrow> a = b
      | _ \<Rightarrow> False)"

definition repo_eq :: "Repo \<Rightarrow> Repo \<Rightarrow> bool" where
  "repo_eq a b = (py_eq (owner a) (owner b) \<and> py_eq (name a) (name b))"

definition set_add :: "Repo \<Rightarrow> Repo list \<Rightarrow> error + Repo list" where
  "set_add r S =
     (if hashable (owner r) \<and> hashable (name r)
      then (if list_ex (repo_eq r) S then Inr S else Inr (S @ [r]))
      else Inl TypeError)"

subsection \<open>The transport\<close>

text \<open>
  The two payloads \<^verbatim>\<open>_create_contrib_query\<close> and \<^verbatim>\<open>_create_pull_request_query\<close> build
  are a fixed query text with three variables each; a payload is kept as its variables.
\<close>

datatype query =
    ContribQuery string string string
  | PullRequestQuery json json json

text \<open>
  \<^verbatim>\<open>client.post(query)\<close> answers with a decoded JSON object. The server and the network
  are a state of any type \<open>'s\<close> that each call may change.
\<close>

type_synonym 's post = "'s \<Rightarrow> query \<Rightarrow> dict \<times> 's"

subsection \<open>\<^verbatim>\<open>_fetch_contributions\<close>\<close>

definition entry_repo :: "json \<Rightarrow> error + Repo" where
  "entry_repo pr =
     (case path pr [''repository'', ''owner'', ''login''] of
        Inl e \<Rightarrow> Inl e
      | Inr ow \<Rightarrow>
     (case path pr [''repository'', ''name''] of
        Inl e \<Rightarrow> Inl e
      | Inr n \<Rightarrow> Inr \<lparr>owner = ow, name = n\<rparr>))"

text \<open>The body of \<^verbatim>\<open>for pr in contribs["pullRequestContributionsByRepository"]\<close>.\<close>

definition add_pr_repo :: "json \<Rightarrow> Repo list \<Rightarrow> error + Repo list" where
  "add_pr_repo pr repos =
     (case entry_repo pr of Inl e \<Rightarrow> Inl e | Inr repo \<Rightarrow> set_add repo repos)"

definition read_contributions :: "dict \<Rightarrow> error + Contributions" where
  "read_contributions resp_json =
     (case path (JObj resp_json) [''data'', ''user'', ''contributionsCollection''] of
        Inl e \<Rightarrow> Inl e
      | Inr contribs \<Rightarrow>
     (case subscript contribs ''pullRequestContributionsByRepository'' of
        Inl e \<Rightarrow> Inl e
      | Inr by_repo \<Rightarrow>
     (case py_iter by_repo of
        Inl e \<Rightarrow> Inl e
      | Inr prs \<Rightarrow>
     (case for_each add_pr_repo prs [] of
        Inl e \<Rightarrow> Inl e
      | Inr repos \<Rightarrow>
     (case subscript contribs ''totalCommitContributions'' of
        Inl e \<Rightarrow> Inl e
      | Inr c \<Rightarrow>
     (case subscript contribs ''totalIssueContributions'' of
        Inl e \<Rightarrow> Inl e
      | Inr i \<Rightarrow>
     (case subscript contribs ''totalPullRequestContributions'' of
        Inl e \<Rightarrow> Inl e
      | Inr p \<Rightarrow>
     (case subscript contribs ''totalPullRequestReviewContributions'' of
        Inl e \<Rightarrow> Inl e
      | Inr r \<Rightarrow>
          Inr \<lparr>commits = c, issues = i, pullrequests = p, reviews = r,
               pr_repos = repos\<rparr>))))))))"

definition fetch_contributions ::
  "'s post \<Rightarrow> string \<Rightarrow> datetime \<Rightarrow> datetime \<Rightarrow> 's \<Rightarrow> (error + Contributions) \<times> 's" where
  "fetch_contributions post loginname start_dt end_dt s =
     (let from' = isoformat start_dt @ ''Z'';
          to' = isoformat end_dt @ ''Z''
      in case post s (ContribQuery loginname from' to') of
           (resp_json, s') \<Rightarrow>
             if map_of resp_json ''data'' = None
             then (Inr \<lparr>commits = JInt 0, issues = JInt 0, pullrequests = JInt 0,
                        reviews = JInt 0, pr_repos = []\<rparr>, s')
             else (read_contributions resp_json, s'))"

subsection \<open>\<^verbatim>\<open>_fetch_pull_requests\<close>\<close>

text \<open>
  \<^verbatim>\<open>datetime.fromisoformat\<close> is a parameter of the model: the strings it accepts differ
  between versions of the library. It raises, or returns a naive datetime, or returns
  one with a UTC offset; comparing the latter with a naive datetime raises
  \<^verbatim>\<open>TypeError\<close>.
\<close>

datatype parsed = Naive datetime | Aware

type_synonym isoparser = "string \<Rightarrow> error + parsed"

definition make_pull_request :: "json \<Rightarrow> json \<Rightarrow> error + PullRequest" where
  "make_pull_request repo_name node =
     (case subscript node ''additions'' of Inl e \<Rightarrow> Inl e | Inr a \<Rightarrow>
     (case subscript node ''deletions'' of Inl e \<Rightarrow> Inl e | Inr d \<Rightarrow>
     (case subscript node ''changedFiles'' of Inl e \<Rightarrow> Inl e | Inr f \<Rightarrow>
     (case subscript node ''createdAt'' of Inl e \<Rightarrow> Inl e | Inr c \<Rightarrow>
     (case subscript node ''number'' of Inl e \<Rightarrow> Inl e | Inr n \<Rightarrow>
     (case subscript node ''url'' of Inl e \<Rightarrow> Inl e | Inr u \<Rightarrow>
        Inr \<lparr>reponame = repo_name, additions = a, deletions = d, files = f,
             created_at = c, number = n, url = u\<rparr>))))))"

text \<open>
  The body of \<^verbatim>\<open>for node in rjson["nodes"]\<close>. The loop state is the pair of \<^verbatim>\<open>more\<close>
  and the list \<^verbatim>\<open>prs\<close>; \<^verbatim>\<open>continue\<close> returns the state for the next node.
\<close>

definition node_step ::
  "isoparser \<Rightarrow> string \<Rightarrow> json \<Rightarrow> datetime \<Rightarrow> datetime \<Rightarrow> json \<Rightarrow>
   bool \<times> PullRequest list \<Rightarrow> error + (bool \<times> PullRequest list)" where
  "node_step fromisoformat author repo_name start_dt end_dt node st =
     (case subscript node ''createdAt'' of Inl e \<Rightarrow> Inl e | Inr c \<Rightarrow>
     (case str_of c of Inl e \<Rightarrow> Inl e | Inr cs \<Rightarrow>
     (case fromisoformat (rstrip CHR ''Z'' cs) of Inl e \<Rightarrow> Inl e | Inr created \<Rightarrow>
     (case path node [''author'', ''login''] of Inl e \<Rightarrow> Inl e | Inr l \<Rightarrow>
     (case str_of l of Inl e \<Rightarrow> Inl e | Inr login \<Rightarrow>
        if lower login \<noteq> lower author then Inr st
        else
          (case created of
             Aware \<Rightarrow> Inl TypeError
           | Naive t \<Rightarrow>
               if \<not> (dt_gt end_dt t \<and> dt_gt t start_dt)
               then Inr (dt_gt t start_dt, snd st)
               else
                 (case make_pull_request repo_name node of
                    Inl e \<Rightarrow> Inl e
                  | Inr pr \<Rightarrow> Inr (fst st, snd st @ [pr]))))))))"

text \<open>
  One pass of the \<^verbatim>\<open>while\<close> body after the check for \<^verbatim>\<open>"data"\<close>: the new cursor, the
  new \<^verbatim>\<open>more\<close> and the new \<^verbatim>\<open>prs\<close>.
\<close>

definition read_page ::
  "isoparser \<Rightarrow> string \<Rightarrow> json \<Rightarrow> datetime \<Rightarrow> datetime \<Rightarrow> dict \<Rightarrow> PullRequest list \<Rightarrow>
   error + (json \<times> bool \<times> PullRequest list)" where
  "read_page fromisoformat author repo_name start_dt end_dt resp_json prs =
     (case path (JObj resp_json) [''data'', ''repository'', ''pullRequests''] of
        Inl e \<Rightarrow> Inl e
      | Inr rjson \<Rightarrow>
     (case path rjson [''pageInfo'', ''endCursor''] of
        Inl e \<Rightarrow> Inl e
      | Inr cursor \<Rightarrow>
     (case path rjson [''pageInfo'', ''hasNextPage''] of
        Inl e \<Rightarrow> Inl e
      | Inr has_next \<Rightarrow>
     (case subscript rjson ''nodes'' of
        Inl e \<Rightarrow> Inl e
      | Inr ns \<Rightarrow>
     (case py_iter ns of
        Inl e \<Rightarrow> Inl e
      | Inr nodes \<Rightarrow>
     (case for_each (node_step fromisoformat author repo_name start_dt end_dt) nodes
             (truthy has_next, prs) of
        Inl e \<Rightarrow> Inl e
      | Inr (more', prs') \<Rightarrow> Inr (cursor, more', prs')))))))"

text \<open>
  The \<^verbatim>\<open>while more\<close> loop. Nothing bounds the number of pages a server may offer, so
  the loop is a partial function: \<open>None\<close> is a call that never returns.
\<close>

partial_function (option) fetch_loop ::
  "isoparser \<Rightarrow> 's post \<Rightarrow> string \<Rightarrow> json \<Rightarrow> json \<Rightarrow> datetime \<Rightarrow> datetime \<Rightarrow>
   bool \<Rightarrow> json \<Rightarrow> PullRequest list \<Rightarrow> 's \<Rightarrow> ((error + PullRequest list) \<times> 's) option" where
  "fetch_loop fromisoformat post author repoowner repo_name start_dt end_dt more' cursor prs s =
     (if \<not> more' then Some (Inr prs, s)
      else
        (case post s (PullRequestQuery repoowner repo_name cursor) of
           (resp_json, s') \<Rightarrow>
             if map_of resp_json ''data'' = None then Some (Inr [], s')
             else
               (case read_page fromisoformat author repo_name start_dt end_dt resp_json prs of
                  Inl e \<Rightarrow> Some (Inl e, s')
                | Inr (cursor', more'', prs') \<Rightarrow>
                    fetch_loop fromisoformat post author repoowner repo_name start_dt end_dt
                      more'' cursor' prs' s')))"

declare fetch_loop.simps [code]

definition fetch_pull_requests ::
  "isoparser \<Rightarrow> 's post \<Rightarrow> string \<Rightarrow> json \<Rightarrow> json \<Rightarrow> datetime \<Rightarrow> datetime \<Rightarrow> 's \<Rightarrow>
   ((error + PullRequest list) \<times> 's) option" where
  "fetch_pull_requests fromisoformat post author repoowner repo_name start_dt end_dt s =
     fetch_loop fromisoformat post author repoowner repo_name start_dt end_dt True JNull [] s"

subsection \<open>\<^verbatim>\<open>get_stats\<close>\<close>

text \<open>
  \<^verbatim>\<open>OFFSET\<close> is read from the clock of the machine, in seconds; \<^verbatim>\<open>UTC_OFFSET\<close> is that
  many whole hours, by floor division.
\<close>

definition UTC_OFFSET :: "int \<Rightarrow> timedelta" where
  "UTC_OFFSET OFFSET = timedelta_hours (OFFSET div 60 div 60)"

text \<open>
  The loop \<^verbatim>\<open>for repo in contribs.pr_repos\<close> over the repositories in the order the set
  yields them. Both sums are computed anew for every repository, before the call.
\<close>

fun fetch_repos ::
  "isoparser \<Rightarrow> 's post \<Rightarrow> string \<Rightarrow> datetime \<Rightarrow> datetime \<Rightarrow> timedelta \<Rightarrow>
   Repo list \<Rightarrow> PullRequest list \<Rightarrow> 's \<Rightarrow> ((error + PullRequest list) \<times> 's) option" where
  "fetch_repos fromisoformat post loginname start_dt end_dt offset [] pull_requests s =
     Some (Inr pull_requests, s)"
| "fetch_repos fromisoformat post loginname start_dt end_dt offset (repo # repos) pull_requests s =
     (case dt_add start_dt offset of
        Inl e \<Rightarrow> Some (Inl e, s)
      | Inr start_utc \<Rightarrow>
     (case dt_add end_dt offset of
        Inl e \<Rightarrow> Some (Inl e, s)
      | Inr end_utc \<Rightarrow>
     (case fetch_pull_requests fromisoformat post loginname (owner repo) (name repo)
             start_utc end_utc s of
        None \<Rightarrow> None
      | Some (Inl e, s') \<Rightarrow> Some (Inl e, s')
      | Some (Inr prs, s') \<Rightarrow>
          fetch_repos fromisoformat post loginname start_dt end_dt offset repos
            (pull_requests @ prs) s')))"

text \<open>
  Besides the parser and the transport, \<^verbatim>\<open>get_stats\<close> depends on the order in which a
  set is iterated (\<open>set_iter\<close>, which Python leaves open), on the clock (\<open>now\<close>) and on
  \<^verbatim>\<open>OFFSET\<close>.
\<close>

definition get_stats ::
  "isoparser \<Rightarrow> 's post \<Rightarrow> (Repo list \<Rightarrow> Repo list) \<Rightarrow> datetime \<Rightarrow> int \<Rightarrow>
   string \<Rightarrow> int option \<Rightarrow> int option \<Rightarrow> int option \<Rightarrow> 's \<Rightarrow>
   ((error + (Contributions \<times> PullRequest list)) \<times> 's) option" where
  "get_stats fromisoformat post set_iter now OFFSET loginname year' month' day' s =
     (case build_bookend_times now year' month' day' of
        Inl e \<Rightarrow> Some (Inl e, s)
      | Inr (start_dt, end_dt) \<Rightarrow>
     (case fetch_contributions post loginname start_dt end_dt s of
        (Inl e, s1) \<Rightarrow> Some (Inl e, s1)
      | (Inr contribs, s1) \<Rightarrow>
     (case fetch_repos fromisoformat post loginname start_dt end_dt (UTC_OFFSET OFFSET)
             (set_iter (pr_repos contribs)) [] s1 of
        None \<Rightarrow> None
      | Some (Inl e, s2) \<Rightarrow> Some (Inl e, s2)
      | Some (Inr pull_requests, s2) \<Rightarrow> Some (Inr (contribs, pull_requests), s2))))"

section \<open>Notions the properties are stated with\<close>

subsection \<open>Equality of strings up to letter case\<close>

text \<open>
  Two characters are the same letter when they are equal or when one is a capital letter
  and the other is its small form. Two strings are equal ignoring case when they have the
  same length and the same letter at every place.
\<close>

definition same_letter :: "char \<Rightarrow> char \<Rightarrow> bool" where
  "same_letter x y =
     (x = y \<or> (x, y) \<in> set (zip upper_letters lower_letters)
            \<or> (y, x) \<in> set (zip upper_letters lower_letters))"

definition equal_ignoring_case :: "string \<Rightarrow> string \<Rightarrow> bool" where
  "equal_ignoring_case a b = list_all2 same_letter a b"

subsection \<open>The states of the paging loop\<close>

text \<open>
  \<open>reach \<dots> s0 more' cursor prs s\<close>: a call of \<^verbatim>\<open>_fetch_pull_requests\<close> that starts with
  the transport in state \<open>s0\<close> arrives at the test of \<^verbatim>\<open>while more\<close> with these values
  of \<^verbatim>\<open>more\<close>, \<^verbatim>\<open>cursor\<close> and \<^verbatim>\<open>prs\<close> and the transport in state \<open>s\<close>.
\<close>

inductive reach ::
  "isoparser \<Rightarrow> 's post \<Rightarrow> string \<Rightarrow> json \<Rightarrow> json \<Rightarrow> datetime \<Rightarrow> datetime \<Rightarrow> 's \<Rightarrow>
   bool \<Rightarrow> json \<Rightarrow> PullRequest list \<Rightarrow> 's \<Rightarrow> bool"
  for fromisoformat post author repoowner repo_name start_dt end_dt s0 where
  reach_init:
    "reach fromisoformat post author repoowner repo_name start_dt end_dt s0 True JNull [] s0"
| reach_page:
    "reach fromisoformat post author repoowner repo_name start_dt end_dt s0 True cursor prs s \<Longrightarrow>
     post s (PullRequestQuery repoowner repo_name cursor) = (resp_json, s') \<Longrightarrow>
     map_of resp_json ''data'' \<noteq> None \<Longrightarrow>
     read_page fromisoformat author repo_name start_dt end_dt resp_json prs
       = Inr (cursor', more', prs') \<Longrightarrow>
     reach fromisoformat post author repoowner repo_name start_dt end_dt s0 more' cursor' prs' s'"

subsection \<open>A record created inside the window\<close>

text \<open>
  The creation timestamp of a record is its \<open>created_at\<close> string, parsed as the fetcher
  parses it. It lies strictly inside the window when it is later than the start, earlier
  than the end, and neither of the two.
\<close>

definition created_inside :: "isoparser \<Rightarrow> datetime \<Rightarrow> datetime \<Rightarrow> PullRequest \<Rightarrow> bool" where
  "created_inside fromisoformat start_dt end_dt pr =
     (case created_at pr of
        JStr cs \<Rightarrow>
          (case fromisoformat (rstrip CHR ''Z'' cs) of
             Inr (Naive t) \<Rightarrow> dt_gt t start_dt \<and> dt_gt end_dt t \<and> t \<noteq> start_dt \<and> t \<noteq> end_dt
           | _ \<Rightarrow> False)
      | _ \<Rightarrow> False)"

subsection \<open>The orchestration, as the specification words it\<close>

text \<open>
  \<open>repo_results \<dots> repos s outs s'\<close>: starting with the transport in state \<open>s\<close>, the pull
  requests of each repository of \<open>repos\<close> are fetched in turn, each time for the window
  moved by \<open>offset\<close> at both ends; \<open>outs\<close> lists the result for each repository, in the
  same order, and \<open>s'\<close> is the state left behind.
\<close>

inductive repo_results ::
  "isoparser \<Rightarrow> 's post \<Rightarrow> string \<Rightarrow> datetime \<Rightarrow> datetime \<Rightarrow> timedelta \<Rightarrow>
   Repo list \<Rightarrow> 's \<Rightarrow> PullRequest list list \<Rightarrow> 's \<Rightarrow> bool"
  for fromisoformat post loginname start_dt end_dt offset where
  results_nil:
    "repo_results fromisoformat post loginname start_dt end_dt offset [] s [] s"
| results_cons:
    "dt_add start_dt offset = Inr start_utc \<Longrightarrow>
     dt_add end_dt offset = Inr end_utc \<Longrightarrow>
     fetch_pull_requests fromisoformat post loginname (owner repo) (name repo)
       start_utc end_utc s = Some (Inr prs, s1) \<Longrightarrow>
     repo_results fromisoformat post loginname start_dt end_dt offset repos s1 outs s2 \<Longrightarrow>
     repo_results fromisoformat post loginname start_dt end_dt offset
       (repo # repos) s (prs # outs) s2"

subsection \<open>The offset of the machine\<close>

text \<open>
  \<^verbatim>\<open>OFFSET\<close> is the number of seconds the local time of the machine lies west of UTC:
  local time plus that many seconds is UTC. As a \<^verbatim>\<open>timedelta\<close>:
\<close>

definition local_utc_offset :: "int \<Rightarrow> timedelta" where
  "local_utc_offset OFFSET = OFFSET * 1000000"

subsection \<open>Repositories named by strings\<close>

definition str_repo :: "string \<times> string \<Rightarrow> Repo" where
  "str_repo p = \<lparr>owner = JStr (fst p), name = JStr (snd p)\<rparr>"

section \<open>A parser, a transport and a server for the examples\<close>

text \<open>
  A parser for the one format the API sends once the \<^verbatim>\<open>Z\<close> is stripped,
  \<^verbatim>\<open>YYYY-MM-DDTHH:MM:SS\<close>; any other string is a \<^verbatim>\<open>ValueError\<close>.
\<close>

definition digit_val :: "char \<Rightarrow> nat option" where
  "digit_val c =
     (let n = (of_char c :: nat) in if 48 \<le> n \<and> n \<le> 57 then Some (n - 48) else None)"

fun read_nat :: "string \<Rightarrow> nat \<Rightarrow> nat option" where
  "read_nat [] acc = Some acc"
| "read_nat (c # cs) acc =
     (case digit_val c of None \<Rightarrow> None | Some d \<Rightarrow> read_nat cs (10 * acc + d))"

definition field :: "nat \<Rightarrow> nat \<Rightarrow> string \<Rightarrow> int option" where
  "field i n s = map_option int (read_nat (take n (drop i s)) 0)"

definition iso_seconds :: isoparser where
  "iso_seconds s =
     (if length s = 19 \<and> map (\<lambda>i. s ! i) [4, 7, 10, 13, 16] = ''--T::''
      then
        (case (field 0 4 s, field 5 2 s, field 8 2 s, field 11 2 s, field 14 2 s, field 17 2 s) of
           (Some y, Some m, Some d, Some h, Some mi, Some sec) \<Rightarrow>
             (case dt_new (mk_datetime y m d h mi sec 0) of
                Inl e \<Rightarrow> Inl e
              | Inr t \<Rightarrow> Inr (Naive t))
         | _ \<Rightarrow> Inl ValueError)
      else Inl ValueError)"

text \<open>
  A transport that asks a server, here a function from the payload to the response, and
  whose state is the list of the payloads posted so far.
\<close>

definition logged :: "(query \<Rightarrow> dict) \<Rightarrow> (query list) post" where
  "logged server s q = (server q, s @ [q])"

definition pr_node :: "string \<Rightarrow> string \<Rightarrow> int \<Rightarrow> json" where
  "pr_node login created n =
     JObj [(''author'', JObj [(''login'', JStr login)]),
           (''createdAt'', JStr created),
           (''updatedAt'', JStr created),
           (''additions'', JInt 47),
           (''deletions'', JInt 286),
           (''changedFiles'', JInt 10),
           (''url'', JStr ''https://github.com/Preocts/daystats/pull''),
           (''number'', JInt n)]"

definition pr_page :: "json \<Rightarrow> bool \<Rightarrow> json list \<Rightarrow> dict" where
  "pr_page cursor has_next nodes =
     [(''data'', JObj [(''repository'', JObj [(''pullRequests'',
        JObj [(''totalCount'', JInt 8),
              (''pageInfo'', JObj [(''endCursor'', cursor), (''hasNextPage'', JBool has_next)]),
              (''nodes'', JArr nodes)])])])]"

definition contrib_entry :: "string \<times> string \<Rightarrow> json" where
  "contrib_entry p =
     JObj [(''repository'',
            JObj [(''owner'', JObj [(''login'', JStr (fst p))]), (''name'', JStr (snd p))])]"

definition contrib_collection :: "(string \<times> string) list \<Rightarrow> json" where
  "contrib_collection pairs =
     JObj [(''totalCommitContributions'', JInt 5),
           (''totalIssueContributions'', JInt 1),
           (''totalPullRequestContributions'', JInt 2),
           (''totalPullRequestReviewContributions'', JInt 0),
           (''pullRequestContributionsByRepository'', JArr (map contrib_entry pairs))]"

definition contrib_response :: "(string \<times> string) list \<Rightarrow> dict" where
  "contrib_response pairs =
     [(''data'', JObj [(''user'', JObj [(''contributionsCollection'',
        contrib_collection pairs)])])]"

definition error_response :: dict where
  "error_response = [(''error'', JStr ''json machine broken'')]"

text \<open>
  The example server knows the user \<^verbatim>\<open>preocts\<close> and three repositories. The window of
  the examples is 1 September 2023 on a machine five hours west of UTC: from 05:00:00 of
  that day to 04:59:59 of the next, in UTC.
  \<^item> \<^verbatim>\<open>daystats\<close> has two pages. The first holds a pull request created at the very end
    of the window, one inside it and one inside it by another author; the second starts
    with one created at the very start of the window.
  \<^item> \<^verbatim>\<open>flaky\<close> answers the first page, with one pull request inside the window, and
    fails on the second.
  \<^item> \<^verbatim>\<open>small\<close> has a single page, which says that no next page exists: a pull
    request newer than the window, then one inside it. Past that page the server
    sends an empty page.
\<close>

definition ex_server :: "query \<Rightarrow> dict" where
  "ex_server q =
     (case q of
        ContribQuery login from' to' \<Rightarrow>
          if login = ''preocts''
          then contrib_response
                 [(''Preocts'', ''daystats''), (''Preocts'', ''small''), (''Preocts'', ''daystats'')]
          else error_response
      | PullRequestQuery repoowner repo_name cursor \<Rightarrow>
          if repo_name = JStr ''daystats'' \<and> cursor = JNull
          then pr_page (JStr ''c1'') True
                 [pr_node ''Preocts'' ''2023-09-02T04:59:59Z'' 6,
                  pr_node ''Preocts'' ''2023-09-01T14:51:04Z'' 5,
                  pr_node ''dependabot'' ''2023-09-01T12:00:00Z'' 4]
          else if repo_name = JStr ''daystats'' \<and> cursor = JStr ''c1''
          then pr_page (JStr ''c2'') True
                 [pr_node ''Preocts'' ''2023-09-01T05:00:00Z'' 3,
                  pr_node ''Preocts'' ''2023-08-30T10:00:00Z'' 2]
          else if repo_name = JStr ''flaky'' \<and> cursor = JNull
          then pr_page (JStr ''c1'') True [pr_node ''Preocts'' ''2023-09-01T14:51:04Z'' 7]
          else if repo_name = JStr ''small'' \<and> cursor = JNull
          then pr_page (JStr ''c1'') False
                 [pr_node ''Preocts'' ''2023-09-03T08:00:00Z'' 9,
                  pr_node ''Preocts'' ''2023-09-01T09:30:00Z'' 8]
          else if repo_name = JStr ''small''
          then pr_page JNull False []
          else error_response)"

text \<open>
  A server for a machine at UTC+5:30 (\<^verbatim>\<open>OFFSET\<close> is -19800), asked on 1 March 2023.
  That local day runs from 18:30:00 of 28 February to 18:29:59 of 1 March in UTC. The one
  page of the repository holds a pull request created at 18:15:00 of 1 March, inside the
  day, and one created at 18:10:00 of 28 February, before it.
\<close>

definition tz_server :: "query \<Rightarrow> dict" where
  "tz_server q =
     (case q of
        ContribQuery login from' to' \<Rightarrow> contrib_response [(''Preocts'', ''daystats'')]
      | PullRequestQuery repoowner repo_name cursor \<Rightarrow>
          if cursor = JNull
          then pr_page (JStr ''c1'') False
                 [pr_node ''Preocts'' ''2023-03-01T18:15:00Z'' 11,
                  pr_node ''Preocts'' ''2023-02-28T18:10:00Z'' 10]
          else pr_page JNull False [])"

definition tz_now :: datetime where
  "tz_now = mk_datetime 2023 3 1 9 0 0 0"

text \<open>The answer of the API for a login that does not exist: \<^verbatim>\<open>data.user\<close> is null.\<close>

definition null_user_server :: "query \<Rightarrow> dict" where
  "null_user_server q =
     [(''data'', JObj [(''user'', JNull)]),
      (''errors'', JArr [JObj [(''type'', JStr ''NOT_FOUND'')]])]"

definition ex_now :: datetime where
  "ex_now = mk_datetime 2023 9 1 12 23 0 0"

definition ex_start :: datetime where
  "ex_start = mk_datetime 2023 9 1 5 0 0 0"

definition ex_end :: datetime where
  "ex_end = mk_datetime 2023 9 2 4 59 59 0"

definition ex_pr :: "string \<Rightarrow> string \<Rightarrow> int \<Rightarrow> PullRequest" where
  "ex_pr repo created n =
     \<lparr>reponame = JStr repo, additions = JInt 47, deletions = JInt 286, files = JInt 10,
      created_at = JStr created, number = JInt n,
      url = JStr ''https://github.com/Preocts/daystats/pull''\<rparr>"

definition ex_query :: "string \<Rightarrow> json \<Rightarrow> query" where
  "ex_query repo cursor = PullRequestQuery (JStr ''Preocts'') (JStr repo) cursor"

section \<open>Properties\<close>

subsection \<open>The window builder\<close>

lemmas window_defs =
  build_bookend_times_def override_def replace_year_def replace_month_def replace_day_def
  replace_time_def dt_new_def valid_datetime_def valid_date_def valid_time_def
  days_in_month_def is_leap_def target_def

lemma override_zero: "override (Some 0) rep t = override None rep t"
  by (simp add: override_def)

lemma build_bookend_times_zero_year:
  "build_bookend_times now (Some 0) m d = build_bookend_times now None m d"
  unfolding build_bookend_times_def override_zero by (rule refl)

lemma build_bookend_times_zero_month:
  "build_bookend_times now y (Some 0) d = build_bookend_times now y None d"
  unfolding build_bookend_times_def override_zero by (rule refl)

lemma build_bookend_times_zero_day:
  "build_bookend_times now y m (Some 0) = build_bookend_times now y m None"
  unfolding build_bookend_times_def override_zero by (rule refl)

lemma build_bookend_times_today:
  assumes "valid_datetime now"
  shows "build_bookend_times now None None None =
           Inr (now\<lparr>hour := 0, minute := 0, second := 0, microsecond := 0\<rparr>,
                now\<lparr>hour := 23, minute := 59, second := 59, microsecond := 0\<rparr>)"
  using assms
  by (simp add: build_bookend_times_def override_def replace_time_def dt_new_def
      valid_datetime_def valid_time_def)

lemma override_year_Inr:
  "override y replace_year t = Inr t' \<Longrightarrow>
   year t' = target (year t) y \<and> month t' = month t \<and> day t' = day t"
  by (auto simp: override_def replace_year_def dt_new_def target_def
      split: option.splits if_splits)

lemma override_month_Inr:
  "override m replace_month t = Inr t' \<Longrightarrow>
   year t' = year t \<and> month t' = target (month t) m \<and> day t' = day t"
  by (auto simp: override_def replace_month_def dt_new_def target_def
      split: option.splits if_splits)

lemma override_day_Inr:
  "override d replace_day t = Inr t' \<Longrightarrow>
   year t' = year t \<and> month t' = month t \<and> day t' = target (day t) d"
  by (auto simp: override_def replace_day_def dt_new_def target_def
      split: option.splits if_splits)

lemma override_year_Inl:
  "override y replace_year t = Inl e \<Longrightarrow> fits_c_int (target (year t) y) \<Longrightarrow> e = ValueError"
  by (auto simp: override_def replace_year_def dt_new_def target_def
      split: option.splits if_splits)

lemma override_month_Inl:
  "override m replace_month t = Inl e \<Longrightarrow> fits_c_int (target (month t) m) \<Longrightarrow> e = ValueError"
  by (auto simp: override_def replace_month_def dt_new_def target_def
      split: option.splits if_splits)

lemma override_day_Inl:
  "override d replace_day t = Inl e \<Longrightarrow> fits_c_int (target (day t) d) \<Longrightarrow> e = ValueError"
  by (auto simp: override_def replace_day_def dt_new_def target_def
      split: option.splits if_splits)

lemma replace_time_Inr:
  "replace_time h mi s us t = Inr t' \<Longrightarrow> valid_date (year t) (month t) (day t)"
  by (auto simp: replace_time_def dt_new_def valid_datetime_def split: if_splits)

lemma replace_time_Inl: "replace_time h mi s us t = Inl e \<Longrightarrow> e = ValueError"
  by (auto simp: replace_time_def dt_new_def split: if_splits)

lemma build_bookend_times_invalid:
  assumes inv: "\<not> valid_date (target (year now) y) (target (month now) m) (target (day now) d)"
    and fy: "fits_c_int (target (year now) y)"
    and fm: "fits_c_int (target (month now) m)"
    and fd: "fits_c_int (target (day now) d)"
  shows "build_bookend_times now y m d = Inl ValueError"
proof (cases "override y replace_year now")
  case (Inl e)
  with override_year_Inl [OF Inl fy] show ?thesis by (simp add: build_bookend_times_def)
next
  case (Inr now1)
  note n1 = this override_year_Inr [OF this]
  show ?thesis
  proof (cases "override m replace_month now1")
    case (Inl e)
    with n1 fm override_month_Inl [OF Inl] show ?thesis by (simp add: build_bookend_times_def)
  next
    case (Inr now2)
    note n2 = this override_month_Inr [OF this]
    show ?thesis
    proof (cases "override d replace_day now2")
      case (Inl e)
      with n1 n2 fd override_day_Inl [OF Inl] show ?thesis
        by (simp add: build_bookend_times_def)
    next
      case (Inr now3)
      note n3 = this override_day_Inr [OF this]
      have bad: "\<not> valid_date (year now3) (month now3) (day now3)"
        using inv n1 n2 n3 by simp
      show ?thesis
      proof (cases "replace_time 0 0 0 0 now3")
        case (Inl e)
        with n1(1) n2(1) n3(1) replace_time_Inl [OF Inl] show ?thesis
          by (simp add: build_bookend_times_def)
      next
        case (Inr start_dt)
        with bad replace_time_Inr [OF Inr] show ?thesis by simp
      qed
    qed
  qed
qed

text \<open>
  C2, as the specification states it: for every valid (year, month, day), also with
  fields left out, the window builder succeeds and returns 00:00:00.000 and 23:59:59.000
  of that date. The code does not: on 31 January 2023 the call with month 2 and day 15
  asks for 15 February 2023, which exists, and raises \<^verbatim>\<open>ValueError\<close>, because the month
  is replaced before the day and 31 February does not exist.
\<close>

theorem valid_date_rejected_by_sequential_replace:
  "valid_datetime (mk_datetime 2023 1 31 12 23 0 0) \<and>
   valid_date (target 2023 None) (target 1 (Some 2)) (target 31 (Some 15)) \<and>
   build_bookend_times (mk_datetime 2023 1 31 12 23 0 0) None (Some 2) (Some 15) = Inl ValueError"
  by (simp add: window_defs fits_c_int_def mk_datetime_def)

text \<open>
  C7, as the specification states it: whenever the requested (year, month, day) is not a
  date of the calendar, the window builder fails with the invalid date error. The code
  does not for a zero: year 2023, month 9, day 0 is not a date, and the call returns the
  window of today, because the test \<^verbatim>\<open>if day:\<close> takes the zero for a missing argument.
\<close>

theorem zero_day_not_rejected:
  "\<not> valid_date 2023 9 0 \<and>
   build_bookend_times (mk_datetime 2023 9 1 12 23 0 0) (Some 2023) (Some 9) (Some 0) =
     Inr (mk_datetime 2023 9 1 0 0 0 0, mk_datetime 2023 9 1 23 59 59 0)"
  by (simp add: window_defs fits_c_int_def mk_datetime_def)

text \<open>
  What the code does for the arguments that are not zero: when they fit a C
  \<^verbatim>\<open>int\<close> and the date they ask for does not exist, the window builder raises
  \<^verbatim>\<open>ValueError\<close>, and \<^verbatim>\<open>get_stats\<close> raises it too, before anything is sent. An
  argument that does not fit a C \<^verbatim>\<open>int\<close> raises \<^verbatim>\<open>OverflowError\<close> instead.
\<close>

lemma invalid_date_raises_ValueError:
  assumes "\<not> valid_date (target (year now) y) (target (month now) m) (target (day now) d)"
    and "fits_c_int (target (year now) y)" "fits_c_int (target (month now) m)"
        "fits_c_int (target (day now) d)"
  shows "build_bookend_times now y m d = Inl ValueError \<and>
         get_stats fi post set_iter now OFFSET loginname y m d s = Some (Inl ValueError, s)"
  using build_bookend_times_invalid [OF assms] by (simp add: get_stats_def)

lemma invalid_date_raises_ValueError_example:
  "build_bookend_times ex_now (Some 2023) (Some 2) (Some 30) = Inl ValueError \<and>
   get_stats iso_seconds (logged ex_server) rev ex_now 18000 ''preocts''
     (Some 2023) (Some 2) (Some 30) [] = Some (Inl ValueError, [])"
proof -
  have h: "\<not> valid_date (target (year ex_now) (Some 2023)) (target (month ex_now) (Some 2))
       (target (day ex_now) (Some 30))"
    by (simp add: valid_date_def target_def days_in_month_def is_leap_def)
  have f: "fits_c_int (target (year ex_now) (Some 2023))"
    "fits_c_int (target (month ex_now) (Some 2))" "fits_c_int (target (day ex_now) (Some 30))"
    by (simp_all add: fits_c_int_def target_def)
  show ?thesis
    using invalid_date_raises_ValueError [OF h f, of iso_seconds "logged ex_server" rev 18000
        "''preocts''" "[]"]
    by simp
qed

lemma huge_year_raises_OverflowError:
  "build_bookend_times ex_now (Some 2147483648) None None = Inl OverflowError"
  by (simp add: build_bookend_times_def override_def replace_year_def fits_c_int_def)

text \<open>
  C10: a zero passed for year, month or day is treated as a field left out: the call
  returns what it returns without that argument, and with three zeros the window of
  today, without an error.
\<close>

theorem zero_field_is_unspecified:
  "build_bookend_times now (Some 0) m d = build_bookend_times now None m d \<and>
   build_bookend_times now y (Some 0) d = build_bookend_times now y None d \<and>
   build_bookend_times now y m (Some 0) = build_bookend_times now y m None \<and>
   (valid_datetime now \<longrightarrow>
      build_bookend_times now (Some 0) (Some 0) (Some 0) =
        Inr (now\<lparr>hour := 0, minute := 0, second := 0, microsecond := 0\<rparr>,
             now\<lparr>hour := 23, minute := 59, second := 59, microsecond := 0\<rparr>))"
  using build_bookend_times_today [of now]
  by (simp add: build_bookend_times_zero_year build_bookend_times_zero_month
      build_bookend_times_zero_day)

theorem zero_field_is_unspecified_witness:
  "valid_datetime ex_now \<and>
   build_bookend_times ex_now (Some 0) (Some 0) (Some 0) =
     Inr (mk_datetime 2023 9 1 0 0 0 0, mk_datetime 2023 9 1 23 59 59 0)"
proof -
  have h: "valid_datetime ex_now"
    by (simp add: ex_now_def mk_datetime_def valid_datetime_def valid_date_def valid_time_def
        days_in_month_def)
  show ?thesis
    using h zero_field_is_unspecified [of ex_now None None None]
    by (simp add: ex_now_def mk_datetime_def)
qed

subsection \<open>Letter case\<close>

lemma letters_length: "length upper_letters = length lower_letters"
  by (simp add: upper_letters_def lower_letters_def)

lemma upper_distinct: "distinct upper_letters"
  by (simp add: upper_letters_def)

lemma lower_distinct: "distinct lower_letters"
  by (simp add: lower_letters_def)

lemma letters_disjoint: "c \<in> set upper_letters \<Longrightarrow> c \<notin> set lower_letters"
  by (auto simp: upper_letters_def lower_letters_def)

lemma table_fst: "map fst (zip upper_letters lower_letters) = upper_letters"
  using letters_length by simp

lemma table_snd: "map snd (zip upper_letters lower_letters) = lower_letters"
  using letters_length by simp

lemma table_Some:
  "(map_of (zip upper_letters lower_letters) a = Some b) = ((a, b) \<in> set (zip upper_letters lower_letters))"
  using upper_distinct by (simp add: table_fst)

lemma table_None:
  "(map_of (zip upper_letters lower_letters) a = None) = (a \<notin> set upper_letters)"
  using map_of_eq_None_iff [of "zip upper_letters lower_letters" a] by (simp only: table_fst set_map [symmetric])

lemma table_mem:
  "(a, b) \<in> set (zip upper_letters lower_letters) \<Longrightarrow> a \<in> set upper_letters \<and> b \<in> set lower_letters"
  by (auto dest: set_zip_leftD set_zip_rightD)

lemma table_inj:
  assumes "(a, b) \<in> set (zip upper_letters lower_letters)"
    and "(a', b) \<in> set (zip upper_letters lower_letters)"
  shows "a = a'"
proof -
  have d: "distinct (map fst (map prod.swap (zip upper_letters lower_letters)))"
    using lower_distinct table_snd by (simp add: comp_def)
  have "(b, a) \<in> set (map prod.swap (zip upper_letters lower_letters))"
       "(b, a') \<in> set (map prod.swap (zip upper_letters lower_letters))"
    using assms by force+
  then show ?thesis using eq_key_imp_eq_value [OF d] by blast
qed

lemma table_fun:
  assumes "(a, b) \<in> set (zip upper_letters lower_letters)"
    and "(a, b') \<in> set (zip upper_letters lower_letters)"
  shows "b = b'"
proof -
  have "distinct (map fst (zip upper_letters lower_letters))"
    using upper_distinct by (simp add: table_fst)
  then show ?thesis using assms by (rule eq_key_imp_eq_value)
qed

lemma lower_char_plain: "c \<notin> set upper_letters \<Longrightarrow> lower_char c = c"
  by (simp add: lower_char_def table_None [symmetric])

lemma lower_char_letter:
  "(c, l) \<in> set (zip upper_letters lower_letters) \<Longrightarrow> lower_char c = l"
  by (simp add: lower_char_def table_Some [symmetric])

lemma upper_cases:
  "c \<notin> set upper_letters \<or> (\<exists>l. (c, l) \<in> set (zip upper_letters lower_letters))"
  by (cases "map_of (zip upper_letters lower_letters) c") (auto simp: table_None table_Some)

lemma lower_char_same: "(lower_char x = lower_char y) = same_letter x y"
proof -
  consider
      (pp) "x \<notin> set upper_letters" "y \<notin> set upper_letters"
    | (pl) l where "x \<notin> set upper_letters" "(y, l) \<in> set (zip upper_letters lower_letters)"
    | (lp) l where "(x, l) \<in> set (zip upper_letters lower_letters)" "y \<notin> set upper_letters"
    | (ll) l l' where "(x, l) \<in> set (zip upper_letters lower_letters)"
                      "(y, l') \<in> set (zip upper_letters lower_letters)"
    using upper_cases [of x] upper_cases [of y] by blast
  then show ?thesis
  proof cases
    case pp
    then show ?thesis
      by (auto simp: lower_char_plain same_letter_def dest: table_mem)
  next
    case pl
    have "lower_char x = x" "lower_char y = l"
      using pl by (simp_all add: lower_char_plain lower_char_letter)
    moreover have "same_letter x y = (x = l)"
      using pl table_mem [of y l] table_mem [of x y] table_fun [of y l x]
      by (auto simp: same_letter_def)
    ultimately show ?thesis by simp
  next
    case lp
    have "lower_char x = l" "lower_char y = y"
      using lp by (simp_all add: lower_char_plain lower_char_letter)
    moreover have "same_letter x y = (l = y)"
      using lp table_mem [of x l] table_mem [of y x] table_fun [of x l y]
      by (auto simp: same_letter_def)
    ultimately show ?thesis by simp
  next
    case ll
    have "lower_char x = l" "lower_char y = l'"
      using ll by (simp_all add: lower_char_letter)
    moreover have "same_letter x y = (l = l')"
      using ll table_mem [of x l] table_mem [of y l'] table_mem [of x y] table_mem [of y x]
        table_fun [of x l l'] table_inj [of x l y] letters_disjoint [of x] letters_disjoint [of y]
      by (auto simp: same_letter_def)
    ultimately show ?thesis by simp
  qed
qed

lemma lower_eq_iff: "(lower a = lower b) = equal_ignoring_case a b"
  unfolding lower_def equal_ignoring_case_def
proof (induction a arbitrary: b)
  case Nil
  show ?case by auto
next
  case (Cons x xs)
  show ?case
  proof (cases b)
    case Nil
    then show ?thesis by simp
  next
    case (Cons y ys)
    then show ?thesis using Cons.IH [of ys] by (simp add: lower_char_same)
  qed
qed

subsection \<open>The contribution fetcher without data\<close>

text \<open>
  C6: when the response to the contributions query has no \<^verbatim>\<open>data\<close> field, the
  contribution fetcher returns, without raising, the summary with the four counters 0
  and no repository.
\<close>

theorem contributions_soft_fail:
  assumes "post s (ContribQuery loginname (isoformat start_dt @ ''Z'') (isoformat end_dt @ ''Z''))
             = (resp_json, s')"
    and "map_of resp_json ''data'' = None"
  shows "fetch_contributions post loginname start_dt end_dt s =
           (Inr \<lparr>commits = JInt 0, issues = JInt 0, pullrequests = JInt 0, reviews = JInt 0,
                 pr_repos = []\<rparr>, s')"
  using assms by (simp add: fetch_contributions_def)

theorem contributions_soft_fail_witness:
  "logged ex_server [] (ContribQuery ''nobody'' (isoformat ex_start @ ''Z'') (isoformat ex_end @ ''Z''))
     = (error_response,
        [ContribQuery ''nobody'' (isoformat ex_start @ ''Z'') (isoformat ex_end @ ''Z'')]) \<and>
   map_of error_response ''data'' = None \<and>
   fetch_contributions (logged ex_server) ''nobody'' ex_start ex_end [] =
     (Inr \<lparr>commits = JInt 0, issues = JInt 0, pullrequests = JInt 0, reviews = JInt 0,
           pr_repos = []\<rparr>,
      [ContribQuery ''nobody'' (isoformat ex_start @ ''Z'') (isoformat ex_end @ ''Z'')])"
proof -
  have p: "logged ex_server [] (ContribQuery ''nobody'' (isoformat ex_start @ ''Z'') (isoformat ex_end @ ''Z''))
     = (error_response,
        [ContribQuery ''nobody'' (isoformat ex_start @ ''Z'') (isoformat ex_end @ ''Z'')])"
    by (simp add: logged_def ex_server_def)
  have d: "map_of error_response ''data'' = None"
    by (simp add: error_response_def)
  show ?thesis
    using p d contributions_soft_fail [where post = "logged ex_server" and s = "[]", OF p d]
    by simp
qed

subsection \<open>The paging loop\<close>

lemma reach_fetch_loop:
  assumes "reach fi post author repoowner r start_dt end_dt s0 m cursor prs s"
  shows "fetch_loop fi post author repoowner r start_dt end_dt m cursor prs s =
         fetch_pull_requests fi post author repoowner r start_dt end_dt s0"
  using assms
proof (induction rule: reach.induct)
  case reach_init
  show ?case by (simp add: fetch_pull_requests_def)
next
  case (reach_page cursor prs s resp_json s' cursor' more' prs')
  have "fetch_loop fi post author repoowner r start_dt end_dt True cursor prs s =
        fetch_loop fi post author repoowner r start_dt end_dt more' cursor' prs' s'"
    using reach_page.hyps(2,3,4) by (subst fetch_loop.simps) auto
  with reach_page.IH show ?case by simp
qed

lemma lex_less_irrefl: "\<not> lex_less xs xs"
  by (induction xs) auto

lemma dt_gt_irrefl: "\<not> dt_gt t t"
  by (simp add: dt_gt_def lex_less_irrefl)

lemma for_each_invariant:
  assumes "for_each body xs acc = Inr acc'"
    and "I acc"
    and "\<And>x a a'. body x a = Inr a' \<Longrightarrow> I a \<Longrightarrow> I a'"
  shows "I acc'"
  using assms(1,2)
proof (induction xs arbitrary: acc)
  case Nil
  then show ?case by simp
next
  case (Cons x xs)
  from Cons.prems(1) obtain a where a: "body x acc = Inr a" and r: "for_each body xs a = Inr acc'"
    by (auto split: sum.splits)
  from assms(3) [OF a Cons.prems(2)] have "I a" .
  with Cons.IH [OF r] show ?case .
qed

lemma make_pull_request_created:
  "make_pull_request r node = Inr pr \<Longrightarrow> subscript node ''createdAt'' = Inr (created_at pr)"
  by (auto simp: make_pull_request_def split: sum.splits)

lemma node_step_inside:
  assumes "node_step fi author r start_dt end_dt node st = Inr st'"
    and "\<forall>pr \<in> set (snd st). created_inside fi start_dt end_dt pr"
  shows "\<forall>pr \<in> set (snd st'). created_inside fi start_dt end_dt pr"
proof -
  { fix c cs t pr
    assume c: "subscript node ''createdAt'' = Inr c" and cs: "str_of c = Inr cs"
      and p: "fi (rstrip CHR ''Z'' cs) = Inr (Naive t)"
      and w: "dt_gt end_dt t" "dt_gt t start_dt"
      and m: "make_pull_request r node = Inr pr"
    from cs have "c = JStr cs" by (cases c) auto
    with c make_pull_request_created [OF m] have "created_at pr = JStr cs" by simp
    moreover from w have "t \<noteq> start_dt" "t \<noteq> end_dt" using dt_gt_irrefl by auto
    ultimately have "created_inside fi start_dt end_dt pr"
      using p w by (simp add: created_inside_def)
  }
  then show ?thesis using assms
    by (auto simp: node_step_def split: sum.splits if_splits parsed.splits)
qed

lemma read_page_inside:
  assumes "read_page fi author r start_dt end_dt resp prs = Inr (c, m, prs')"
    and "\<forall>pr \<in> set prs. created_inside fi start_dt end_dt pr"
  shows "\<forall>pr \<in> set prs'. created_inside fi start_dt end_dt pr"
proof -
  from assms(1) obtain nodes b where
    f: "for_each (node_step fi author r start_dt end_dt) nodes (b, prs) = Inr (m, prs')"
    by (auto simp: read_page_def split: sum.splits prod.splits)
  have "\<forall>pr \<in> set (snd (m, prs')). created_inside fi start_dt end_dt pr"
    by (rule for_each_invariant [OF f, where I = "\<lambda>st. \<forall>pr \<in> set (snd st). created_inside fi start_dt end_dt pr"])
       (use assms(2) node_step_inside in auto)
  then show ?thesis by simp
qed

lemma fetch_loop_inside:
  assumes "fetch_loop fi post author repoowner r start_dt end_dt m c prs s = Some res"
    and "\<forall>pr \<in> set prs. created_inside fi start_dt end_dt pr"
  shows "\<forall>out. fst res = Inr out \<longrightarrow> (\<forall>pr \<in> set out. created_inside fi start_dt end_dt pr)"
  using assms
proof (induction rule: fetch_loop.raw_induct [rotated 1, consumes 1])
  case (1 loop fi post author repoowner r start_dt end_dt m c prs s res)
  show ?case
  proof (cases m)
    case False
    with 1(2,3) show ?thesis by auto
  next
    case True
    obtain resp s1 where p: "post s (PullRequestQuery repoowner r c) = (resp, s1)"
      by (cases "post s (PullRequestQuery repoowner r c)")
    show ?thesis
    proof (cases "map_of resp ''data'' = None")
      case True
      with 1(2) \<open>m\<close> p show ?thesis by auto
    next
      case False
      note data = this
      show ?thesis
      proof (cases "read_page fi author r start_dt end_dt resp prs")
        case (Inl e)
        with 1(2) \<open>m\<close> p data show ?thesis by auto
      next
        case (Inr page)
        obtain c' m' prs' where page: "page = (c', m', prs')" by (cases page)
        with Inr 1(2) \<open>m\<close> p data
        have l: "loop fi post author repoowner r start_dt end_dt m' c' prs' s1 = Some res"
          by simp
        from Inr page have rp: "read_page fi author r start_dt end_dt resp prs = Inr (c', m', prs')"
          by simp
        from 1(1) [OF l read_page_inside [OF rp 1(3)]] show ?thesis .
      qed
    qed
  qed
qed

text \<open>
  C1, as the specification states it: no further page is requested once the server
  reports that no next page exists. The code does request one: the only page of the
  repository \<^verbatim>\<open>small\<close> reports \<^verbatim>\<open>hasNextPage\<close> false and holds a pull request of the
  author that is newer than the window, so \<^verbatim>\<open>more\<close> is set again and a second
  payload, with the end cursor, is posted.
\<close>

theorem page_requested_after_last_page:
  "path (JObj (ex_server (ex_query ''small'' JNull)))
     [''data'', ''repository'', ''pullRequests'', ''pageInfo'', ''hasNextPage''] = Inr (JBool False) \<and>
   fetch_pull_requests iso_seconds (logged ex_server) ''preocts'' (JStr ''Preocts'') (JStr ''small'')
     ex_start ex_end [] =
     Some (Inr [ex_pr ''small'' ''2023-09-01T09:30:00Z'' 8],
           [ex_query ''small'' JNull, ex_query ''small'' (JStr ''c1'')])"
  by code_simp

text \<open>
  C4: every record the pull request fetcher returns has a creation timestamp strictly
  later than the start and strictly earlier than the end of the window it was called
  with; a pull request created exactly at the start or exactly at the end is not
  returned.
\<close>

theorem records_strictly_inside_window:
  assumes "fetch_pull_requests fi post author repoowner r start_dt end_dt s = Some (Inr out, s')"
  shows "\<forall>pr \<in> set out. created_inside fi start_dt end_dt pr"
  using fetch_loop_inside [of fi post author repoowner r start_dt end_dt True JNull "[]" s "(Inr out, s')"] assms
  by (simp add: fetch_pull_requests_def)

theorem records_strictly_inside_window_witness:
  "iso_seconds (rstrip CHR ''Z'' ''2023-09-02T04:59:59Z'') = Inr (Naive ex_end) \<and>
   iso_seconds (rstrip CHR ''Z'' ''2023-09-01T05:00:00Z'') = Inr (Naive ex_start) \<and>
   fetch_pull_requests iso_seconds (logged ex_server) ''preocts'' (JStr ''Preocts'')
     (JStr ''daystats'') ex_start ex_end [] =
     Some (Inr [ex_pr ''daystats'' ''2023-09-01T14:51:04Z'' 5],
           [ex_query ''daystats'' JNull, ex_query ''daystats'' (JStr ''c1'')]) \<and>
   created_inside iso_seconds ex_start ex_end (ex_pr ''daystats'' ''2023-09-01T14:51:04Z'' 5)"
proof -
  have a: "iso_seconds (rstrip CHR ''Z'' ''2023-09-02T04:59:59Z'') = Inr (Naive ex_end)"
    by code_simp
  have b: "iso_seconds (rstrip CHR ''Z'' ''2023-09-01T05:00:00Z'') = Inr (Naive ex_start)"
    by code_simp
  have e: "fetch_pull_requests iso_seconds (logged ex_server) ''preocts'' (JStr ''Preocts'')
     (JStr ''daystats'') ex_start ex_end [] =
     Some (Inr [ex_pr ''daystats'' ''2023-09-01T14:51:04Z'' 5],
           [ex_query ''daystats'' JNull, ex_query ''daystats'' (JStr ''c1'')])"
    by code_simp
  show ?thesis
    using a b e records_strictly_inside_window [OF e] by simp
qed

text \<open>
  C5: if the response to any page of a call of the pull request fetcher has no
  \<^verbatim>\<open>data\<close> field, the call returns the empty list at once, whatever the earlier pages
  of that call had collected.
\<close>

theorem no_partial_results:
  assumes "reach fi post author repoowner r start_dt end_dt s0 True cursor prs s"
    and "post s (PullRequestQuery repoowner r cursor) = (resp_json, s')"
    and "map_of resp_json ''data'' = None"
  shows "fetch_pull_requests fi post author repoowner r start_dt end_dt s0 = Some (Inr [], s')"
proof -
  have "fetch_loop fi post author repoowner r start_dt end_dt True cursor prs s = Some (Inr [], s')"
    using assms(2,3) by (subst fetch_loop.simps) simp
  then show ?thesis using reach_fetch_loop [OF assms(1)] by simp
qed

theorem no_partial_results_witness:
  "reach iso_seconds (logged ex_server) ''preocts'' (JStr ''Preocts'') (JStr ''flaky'')
     ex_start ex_end [] True (JStr ''c1'') [ex_pr ''flaky'' ''2023-09-01T14:51:04Z'' 7]
     [ex_query ''flaky'' JNull] \<and>
   logged ex_server [ex_query ''flaky'' JNull] (ex_query ''flaky'' (JStr ''c1'')) =
     (error_response, [ex_query ''flaky'' JNull, ex_query ''flaky'' (JStr ''c1'')]) \<and>
   map_of error_response ''data'' = None \<and>
   fetch_pull_requests iso_seconds (logged ex_server) ''preocts'' (JStr ''Preocts'')
     (JStr ''flaky'') ex_start ex_end [] =
     Some (Inr [], [ex_query ''flaky'' JNull, ex_query ''flaky'' (JStr ''c1'')])"
proof -
  let ?page = "pr_page (JStr ''c1'') True [pr_node ''Preocts'' ''2023-09-01T14:51:04Z'' 7]"
  have r: "reach iso_seconds (logged ex_server) ''preocts'' (JStr ''Preocts'') (JStr ''flaky'')
     ex_start ex_end [] True (JStr ''c1'') [ex_pr ''flaky'' ''2023-09-01T14:51:04Z'' 7]
     [ex_query ''flaky'' JNull]"
  proof (rule reach_page [OF reach_init])
    show "logged ex_server [] (PullRequestQuery (JStr ''Preocts'') (JStr ''flaky'') JNull) =
            (?page, [ex_query ''flaky'' JNull])"
      by (simp add: logged_def ex_server_def ex_query_def)
    show "map_of ?page ''data'' \<noteq> None"
      by (simp add: pr_page_def)
    show "read_page iso_seconds ''preocts'' (JStr ''flaky'') ex_start ex_end ?page [] =
            Inr (JStr ''c1'', True, [ex_pr ''flaky'' ''2023-09-01T14:51:04Z'' 7])"
      by code_simp
  qed
  have p: "logged ex_server [ex_query ''flaky'' JNull]
             (PullRequestQuery (JStr ''Preocts'') (JStr ''flaky'') (JStr ''c1'')) =
           (error_response, [ex_query ''flaky'' JNull, ex_query ''flaky'' (JStr ''c1'')])"
    by (simp add: logged_def ex_server_def ex_query_def)
  have d: "map_of error_response ''data'' = None"
    by (simp add: error_response_def)
  show ?thesis
    using r p d no_partial_results [OF r p d] by (simp add: ex_query_def)
qed

text \<open>
  C9: the author filter ignores letter case. Whether a node is collected or skipped is
  the same for two spellings of the queried author that differ in letter case only; a
  node whose author differs from the queried one in more than letter case is skipped and
  leaves both the list and the paging signal \<^verbatim>\<open>more\<close> as they were; a node whose author
  equals the queried one up to letter case, created inside the window, is collected.
\<close>

theorem author_filter_ignores_case:
  assumes "subscript node ''createdAt'' = Inr (JStr cs)"
    and "fi (rstrip CHR ''Z'' cs) = Inr created"
    and "path node [''author'', ''login''] = Inr (JStr login)"
  shows "(equal_ignoring_case author author' \<longrightarrow>
            node_step fi author r st en node x = node_step fi author' r st en node x) \<and>
         (\<not> equal_ignoring_case login author \<longrightarrow>
            node_step fi author r st en node x = Inr x) \<and>
         (equal_ignoring_case login author \<longrightarrow> created = Naive t \<longrightarrow>
            dt_gt en t \<longrightarrow> dt_gt t st \<longrightarrow> make_pull_request r node = Inr pr \<longrightarrow>
            node_step fi author r st en node x = Inr (fst x, snd x @ [pr]))"
proof (intro conjI impI)
  assume "equal_ignoring_case author author'"
  then have "lower author = lower author'" by (simp add: lower_eq_iff)
  then show "node_step fi author r st en node x = node_step fi author' r st en node x"
    by (auto simp: node_step_def split: sum.splits)
next
  assume "\<not> equal_ignoring_case login author"
  then have "lower login \<noteq> lower author" by (simp add: lower_eq_iff)
  then show "node_step fi author r st en node x = Inr x"
    using assms by (simp add: node_step_def)
next
  assume "equal_ignoring_case login author" and "created = Naive t" and "dt_gt en t"
    and "dt_gt t st" and "make_pull_request r node = Inr pr"
  moreover from \<open>equal_ignoring_case login author\<close> have "lower login = lower author"
    by (simp add: lower_eq_iff)
  ultimately show "node_step fi author r st en node x = Inr (fst x, snd x @ [pr])"
    using assms by (simp add: node_step_def)
qed

theorem author_filter_ignores_case_witness:
  "equal_ignoring_case ''Preocts'' ''preocts'' \<and>
   node_step iso_seconds ''preocts'' (JStr ''daystats'') ex_start ex_end
     (pr_node ''Preocts'' ''2023-09-01T14:51:04Z'' 5) (False, []) =
     Inr (False, [ex_pr ''daystats'' ''2023-09-01T14:51:04Z'' 5]) \<and>
   \<not> equal_ignoring_case ''dependabot'' ''preocts'' \<and>
   node_step iso_seconds ''preocts'' (JStr ''daystats'') ex_start ex_end
     (pr_node ''dependabot'' ''2023-09-01T12:00:00Z'' 4) (True, []) = Inr (True, [])"
proof -
  let ?t = "mk_datetime 2023 9 1 14 51 4 0"
  let ?n5 = "pr_node ''Preocts'' ''2023-09-01T14:51:04Z'' 5"
  let ?n4 = "pr_node ''dependabot'' ''2023-09-01T12:00:00Z'' 4"
  have e1: "equal_ignoring_case ''Preocts'' ''preocts''"
    by (simp add: equal_ignoring_case_def same_letter_def upper_letters_def lower_letters_def)
  have c5: "subscript ?n5 ''createdAt'' = Inr (JStr ''2023-09-01T14:51:04Z'')"
    by (simp add: pr_node_def)
  have p5: "iso_seconds (rstrip CHR ''Z'' ''2023-09-01T14:51:04Z'') = Inr (Naive ?t)"
    by code_simp
  have l5: "path ?n5 [''author'', ''login''] = Inr (JStr ''Preocts'')"
    by (simp add: pr_node_def)
  have w5: "dt_gt ex_end ?t" "dt_gt ?t ex_start"
    by (simp_all add: dt_gt_def dt_key_def ex_end_def ex_start_def mk_datetime_def)
  have m5: "make_pull_request (JStr ''daystats'') ?n5 = Inr (ex_pr ''daystats'' ''2023-09-01T14:51:04Z'' 5)"
    by (simp add: make_pull_request_def pr_node_def ex_pr_def)
  have e2: "\<not> equal_ignoring_case ''dependabot'' ''preocts''"
    by (simp add: equal_ignoring_case_def)
  have c4: "subscript ?n4 ''createdAt'' = Inr (JStr ''2023-09-01T12:00:00Z'')"
    by (simp add: pr_node_def)
  have p4: "iso_seconds (rstrip CHR ''Z'' ''2023-09-01T12:00:00Z'') =
              Inr (Naive (mk_datetime 2023 9 1 12 0 0 0))"
    by code_simp
  have l4: "path ?n4 [''author'', ''login''] = Inr (JStr ''dependabot'')"
    by (simp add: pr_node_def)
  show ?thesis
    using e1 e2 w5 m5
      author_filter_ignores_case [where fi = iso_seconds, OF c5 p5 l5, of "''preocts''"
        "''preocts''" "JStr ''daystats''" ex_start ex_end "(False, [])" ?t
        "ex_pr ''daystats'' ''2023-09-01T14:51:04Z'' 5"]
      author_filter_ignores_case [where fi = iso_seconds, OF c4 p4 l4, of "''preocts''"
        "''preocts''" "JStr ''daystats''" ex_start ex_end "(True, [])"]
    by simp
qed

subsection \<open>The set of repositories\<close>

lemma repo_eq_str: "repo_eq (str_repo p) (str_repo q) = (p = q)"
  by (cases p; cases q) (auto simp: repo_eq_def py_eq_def str_repo_def)

lemma str_repo_inj: "inj str_repo"
  by (rule injI) (auto simp: str_repo_def prod_eq_iff)

lemma set_add_str:
  "set_add (str_repo p) (map str_repo ps) =
     Inr (map str_repo (if p \<in> set ps then ps else ps @ [p]))"
  by (auto simp: set_add_def list_ex_iff repo_eq_str) (simp_all add: str_repo_def)

lemma for_each_add_pr_repo:
  assumes "map entry_repo entries = map (\<lambda>p. Inr (str_repo p)) pairs"
    and "distinct ps0"
  shows "\<exists>ps. for_each add_pr_repo entries (map str_repo ps0) = Inr (map str_repo ps) \<and>
           distinct ps \<and> set ps = set ps0 \<union> set pairs"
  using assms
proof (induction entries arbitrary: pairs ps0)
  case Nil
  then show ?case by auto
next
  case (Cons e es)
  from Cons.prems(1) obtain p ps' where pairs: "pairs = p # ps'"
    and e: "entry_repo e = Inr (str_repo p)"
    and es: "map entry_repo es = map (\<lambda>p. Inr (str_repo p)) ps'"
    by (cases pairs) auto
  let ?ps1 = "if p \<in> set ps0 then ps0 else ps0 @ [p]"
  have step: "add_pr_repo e (map str_repo ps0) = Inr (map str_repo ?ps1)"
    using e by (simp add: add_pr_repo_def set_add_str)
  have d: "distinct ?ps1" using Cons.prems(2) by simp
  from Cons.IH [OF es d] obtain ps where
    "for_each add_pr_repo es (map str_repo ?ps1) = Inr (map str_repo ps)"
    "distinct ps" "set ps = set ?ps1 \<union> set ps'"
    by blast
  then show ?case using step pairs
    by (intro exI [of _ ps]) (auto split: if_splits)
qed

text \<open>
  C8: when every entry of the contributions response names its repository by two strings,
  owner and name, the set \<open>pr_repos\<close> holds one element for each distinct pair of
  strings, compared character by character (so letter case counts). In particular, N
  entries that name one pair give a set of exactly one element, whatever N is.
\<close>

theorem pr_repos_deduplicated:
  assumes "post s (ContribQuery loginname (isoformat start_dt @ ''Z'') (isoformat end_dt @ ''Z''))
             = (resp_json, s')"
    and "path (JObj resp_json) [''data'', ''user'', ''contributionsCollection''] = Inr contribs"
    and "subscript contribs ''pullRequestContributionsByRepository'' = Inr (JArr entries)"
    and "map entry_repo entries = map (\<lambda>p. Inr (str_repo p)) pairs"
    and "subscript contribs ''totalCommitContributions'' = Inr c"
    and "subscript contribs ''totalIssueContributions'' = Inr i"
    and "subscript contribs ''totalPullRequestContributions'' = Inr p"
    and "subscript contribs ''totalPullRequestReviewContributions'' = Inr r"
  shows "\<exists>repos.
           fetch_contributions post loginname start_dt end_dt s =
             (Inr \<lparr>commits = c, issues = i, pullrequests = p, reviews = r, pr_repos = repos\<rparr>, s') \<and>
           distinct repos \<and> set repos = str_repo ` set pairs \<and>
           length repos = card (set pairs) \<and>
           (\<forall>q. set pairs = {q} \<longrightarrow> repos = [str_repo q])"
proof -
  from for_each_add_pr_repo [OF assms(4), of "[]"] obtain ps where
    f: "for_each add_pr_repo entries [] = Inr (map str_repo ps)"
    and d: "distinct ps" and st: "set ps = set pairs"
    by auto
  have data: "map_of resp_json ''data'' \<noteq> None"
    using assms(2) by (auto split: option.splits sum.splits)
  have rc: "read_contributions resp_json =
      Inr \<lparr>commits = c, issues = i, pullrequests = p, reviews = r, pr_repos = map str_repo ps\<rparr>"
    unfolding read_contributions_def using assms(2,3,5,6,7,8) f by simp
  have fc: "fetch_contributions post loginname start_dt end_dt s =
      (Inr \<lparr>commits = c, issues = i, pullrequests = p, reviews = r, pr_repos = map str_repo ps\<rparr>, s')"
    using assms(1) data rc by (auto simp: fetch_contributions_def)
  have d2: "distinct (map str_repo ps)"
    using d inj_on_subset [OF str_repo_inj, of "set ps"] by (simp add: distinct_map)
  have len: "length (map str_repo ps) = card (set pairs)"
    using d st distinct_card [of ps] by simp
  have one: "\<forall>q. set pairs = {q} \<longrightarrow> map str_repo ps = [str_repo q]"
  proof (intro allI impI)
    fix q assume "set pairs = {q}"
    with st have "set ps = {q}" by simp
    with d have "ps = [q]"
      by (cases ps) (auto simp: insert_eq_iff dest: subset_singletonD)
    then show "map str_repo ps = [str_repo q]" by simp
  qed
  show ?thesis
    using fc d2 st len one by (intro exI [of _ "map str_repo ps"]) auto
qed

theorem pr_repos_deduplicated_witness:
  "fetch_contributions
     (logged (\<lambda>q. contrib_response
        [(''Preocts'', ''daystats''), (''Preocts'', ''daystats''), (''Preocts'', ''daystats'')]))
     ''preocts'' ex_start ex_end [] =
     (Inr \<lparr>commits = JInt 5, issues = JInt 1, pullrequests = JInt 2, reviews = JInt 0,
           pr_repos = [str_repo (''Preocts'', ''daystats'')]\<rparr>,
      [ContribQuery ''preocts'' (isoformat ex_start @ ''Z'') (isoformat ex_end @ ''Z'')]) \<and>
   (\<exists>repos.
      fetch_contributions
        (logged (\<lambda>q. contrib_response [(''Preocts'', ''daystats''), (''preocts'', ''daystats'')]))
        ''preocts'' ex_start ex_end [] =
        (Inr \<lparr>commits = JInt 5, issues = JInt 1, pullrequests = JInt 2, reviews = JInt 0,
              pr_repos = repos\<rparr>,
         [ContribQuery ''preocts'' (isoformat ex_start @ ''Z'') (isoformat ex_end @ ''Z'')]) \<and>
      length repos = 2)"
proof -
  let ?q = "ContribQuery ''preocts'' (isoformat ex_start @ ''Z'') (isoformat ex_end @ ''Z'')"
  have entry: "\<And>ps. map entry_repo (map contrib_entry ps) = map (\<lambda>p. Inr (str_repo p)) ps"
    by (simp add: entry_repo_def contrib_entry_def str_repo_def)
  have post: "\<And>ps. logged (\<lambda>q. contrib_response ps) [] ?q = (contrib_response ps, [?q])"
    by (simp add: logged_def)
  have coll: "\<And>ps. path (JObj (contrib_response ps)) [''data'', ''user'', ''contributionsCollection'']
                = Inr (contrib_collection ps)"
    by (simp add: contrib_response_def)
  have by_repo: "\<And>ps. subscript (contrib_collection ps) ''pullRequestContributionsByRepository''
                = Inr (JArr (map contrib_entry ps))"
    by (simp add: contrib_collection_def)
  have totals:
    "\<And>ps. subscript (contrib_collection ps) ''totalCommitContributions'' = Inr (JInt 5)"
    "\<And>ps. subscript (contrib_collection ps) ''totalIssueContributions'' = Inr (JInt 1)"
    "\<And>ps. subscript (contrib_collection ps) ''totalPullRequestContributions'' = Inr (JInt 2)"
    "\<And>ps. subscript (contrib_collection ps) ''totalPullRequestReviewContributions'' = Inr (JInt 0)"
    by (simp_all add: contrib_collection_def)
  let ?same = "[(''Preocts'', ''daystats''), (''Preocts'', ''daystats''), (''Preocts'', ''daystats'')]"
  let ?cased = "[(''Preocts'', ''daystats''), (''preocts'', ''daystats'')]"
  have one: "set ?same = {(''Preocts'', ''daystats'')}" by simp
  have two: "card (set ?cased) = 2" by simp
  from pr_repos_deduplicated [where post = "logged (\<lambda>q. contrib_response ?same)" and s = "[]",
      OF post coll by_repo entry totals] one
  have a: "fetch_contributions (logged (\<lambda>q. contrib_response ?same)) ''preocts'' ex_start ex_end [] =
     (Inr \<lparr>commits = JInt 5, issues = JInt 1, pullrequests = JInt 2, reviews = JInt 0,
           pr_repos = [str_repo (''Preocts'', ''daystats'')]\<rparr>, [?q])"
    by auto
  from pr_repos_deduplicated [where post = "logged (\<lambda>q. contrib_response ?cased)" and s = "[]",
      OF post coll by_repo entry totals] two
  have b: "\<exists>repos. fetch_contributions (logged (\<lambda>q. contrib_response ?cased)) ''preocts''
        ex_start ex_end [] =
        (Inr \<lparr>commits = JInt 5, issues = JInt 1, pullrequests = JInt 2, reviews = JInt 0,
              pr_repos = repos\<rparr>, [?q]) \<and> length repos = 2"
    by auto
  from a b show ?thesis by simp
qed

subsection \<open>The orchestrator\<close>

lemma repo_results_Nil:
  "repo_results fi post l st en off [] s outs s2 = (outs = [] \<and> s2 = s)"
  by (auto elim: repo_results.cases intro: repo_results.intros)

lemma repo_results_Cons:
  "repo_results fi post l st en off (repo # repos) s outs s2 =
     (\<exists>start_utc end_utc prs s1 outs'.
        dt_add st off = Inr start_utc \<and> dt_add en off = Inr end_utc \<and>
        fetch_pull_requests fi post l (owner repo) (name repo) start_utc end_utc s = Some (Inr prs, s1) \<and>
        repo_results fi post l st en off repos s1 outs' s2 \<and> outs = prs # outs')"
  by (auto elim: repo_results.cases intro: repo_results.intros)

lemma fetch_repos_results:
  "(fetch_repos fi post l st en off repos acc s = Some (Inr prs, s2)) =
   (\<exists>outs. repo_results fi post l st en off repos s outs s2 \<and> prs = acc @ concat outs)"
proof (induction repos arbitrary: acc s)
  case Nil
  show ?case by (auto simp: repo_results_Nil)
next
  case (Cons repo repos)
  show ?case
  proof (cases "dt_add st off")
    case (Inl e)
    then show ?thesis by (simp add: repo_results_Cons)
  next
    case (Inr start_utc)
    note a = this
    show ?thesis
    proof (cases "dt_add en off")
      case (Inl e)
      then show ?thesis using a by (simp add: repo_results_Cons)
    next
      case (Inr end_utc)
      note b = this
      show ?thesis
      proof (cases "fetch_pull_requests fi post l (owner repo) (name repo) start_utc end_utc s")
        case None
        then show ?thesis using a b by (simp add: repo_results_Cons)
      next
        case (Some res)
        obtain r s1 where res: "res = (r, s1)" by (cases res)
        show ?thesis
        proof (cases r)
          case (Inl e)
          then show ?thesis using a b Some res by (simp add: repo_results_Cons)
        next
          case (Inr out)
          then show ?thesis using a b Some res Cons.IH [of "acc @ out" s1]
            by (auto simp: repo_results_Cons)
        qed
      qed
    qed
  qed
qed

text \<open>
  What \<^verbatim>\<open>get_stats\<close> does: it returns a summary and a list of pull requests exactly when
  the window builder returns a window, the contribution fetcher, called with that window
  as it is, returns the summary, and the pull request fetcher, called for each repository
  of the summary in the order the set yields them and with \<^verbatim>\<open>UTC_OFFSET\<close> added to both
  ends of the window, returns the lists whose concatenation, in that order, is the list
  returned.
\<close>

lemma get_stats_orchestration:
  "(get_stats fi post set_iter now OFFSET loginname y m d s = Some (Inr (contribs, pull_requests), s2)) =
   (\<exists>start_dt end_dt s1 outs.
      build_bookend_times now y m d = Inr (start_dt, end_dt) \<and>
      fetch_contributions post loginname start_dt end_dt s = (Inr contribs, s1) \<and>
      repo_results fi post loginname start_dt end_dt (UTC_OFFSET OFFSET)
        (set_iter (pr_repos contribs)) s1 outs s2 \<and>
      pull_requests = concat outs)"
proof (cases "build_bookend_times now y m d")
  case (Inl e)
  then show ?thesis by (simp add: get_stats_def)
next
  case (Inr w)
  obtain start_dt end_dt where w: "w = (start_dt, end_dt)" by (cases w)
  obtain r s1 where fc: "fetch_contributions post loginname start_dt end_dt s = (r, s1)"
    by (cases "fetch_contributions post loginname start_dt end_dt s")
  show ?thesis
  proof (cases r)
    case (Inl e)
    then show ?thesis using Inr w fc by (simp add: get_stats_def)
  next
    case (Inr c)
    note c = this
    have "(get_stats fi post set_iter now OFFSET loginname y m d s = Some (Inr (contribs, pull_requests), s2)) =
          (c = contribs \<and> fetch_repos fi post loginname start_dt end_dt (UTC_OFFSET OFFSET)
              (set_iter (pr_repos c)) [] s1 = Some (Inr pull_requests, s2))"
      using \<open>build_bookend_times now y m d = Inr w\<close> w fc c
      by (auto simp: get_stats_def split: option.splits sum.splits prod.splits)
    then show ?thesis
      using \<open>build_bookend_times now y m d = Inr w\<close> w fc c
      by (auto simp: fetch_repos_results)
  qed
qed

lemma get_stats_orchestration_example:
  "get_stats iso_seconds (logged ex_server) rev ex_now 18000 ''preocts''
     (Some 2023) (Some 9) (Some 1) [] =
     Some (Inr (\<lparr>commits = JInt 5, issues = JInt 1, pullrequests = JInt 2, reviews = JInt 0,
                 pr_repos = [str_repo (''Preocts'', ''daystats''), str_repo (''Preocts'', ''small'')]\<rparr>,
                [ex_pr ''small'' ''2023-09-01T09:30:00Z'' 8,
                 ex_pr ''daystats'' ''2023-09-01T14:51:04Z'' 5]),
           [ContribQuery ''preocts'' ''2023-09-01T00:00:00Z'' ''2023-09-01T23:59:59Z'',
            ex_query ''small'' JNull, ex_query ''small'' (JStr ''c1''),
            ex_query ''daystats'' JNull, ex_query ''daystats'' (JStr ''c1'')]) \<and>
   dt_add (mk_datetime 2023 9 1 0 0 0 0) (UTC_OFFSET 18000) = Inr ex_start \<and>
   dt_add (mk_datetime 2023 9 1 23 59 59 0) (UTC_OFFSET 18000) = Inr ex_end \<and>
   (\<exists>s1 outs.
      fetch_contributions (logged ex_server) ''preocts'' (mk_datetime 2023 9 1 0 0 0 0)
        (mk_datetime 2023 9 1 23 59 59 0) [] =
        (Inr \<lparr>commits = JInt 5, issues = JInt 1, pullrequests = JInt 2, reviews = JInt 0,
              pr_repos = [str_repo (''Preocts'', ''daystats''), str_repo (''Preocts'', ''small'')]\<rparr>,
         s1) \<and>
      repo_results iso_seconds (logged ex_server) ''preocts'' (mk_datetime 2023 9 1 0 0 0 0)
        (mk_datetime 2023 9 1 23 59 59 0) (UTC_OFFSET 18000)
        [str_repo (''Preocts'', ''small''), str_repo (''Preocts'', ''daystats'')] s1 outs
        [ContribQuery ''preocts'' ''2023-09-01T00:00:00Z'' ''2023-09-01T23:59:59Z'',
         ex_query ''small'' JNull, ex_query ''small'' (JStr ''c1''),
         ex_query ''daystats'' JNull, ex_query ''daystats'' (JStr ''c1'')] \<and>
      [ex_pr ''small'' ''2023-09-01T09:30:00Z'' 8, ex_pr ''daystats'' ''2023-09-01T14:51:04Z'' 5] =
        concat outs)"
proof -
  let ?q0 = "ContribQuery ''preocts'' ''2023-09-01T00:00:00Z'' ''2023-09-01T23:59:59Z''"
  have w: "build_bookend_times ex_now (Some 2023) (Some 9) (Some 1) =
             Inr (mk_datetime 2023 9 1 0 0 0 0, mk_datetime 2023 9 1 23 59 59 0)"
    by code_simp
  have a: "dt_add (mk_datetime 2023 9 1 0 0 0 0) (UTC_OFFSET 18000) = Inr ex_start"
    by code_simp
  have b: "dt_add (mk_datetime 2023 9 1 23 59 59 0) (UTC_OFFSET 18000) = Inr ex_end"
    by code_simp
  have fc: "fetch_contributions (logged ex_server) ''preocts'' (mk_datetime 2023 9 1 0 0 0 0)
        (mk_datetime 2023 9 1 23 59 59 0) [] =
        (Inr \<lparr>commits = JInt 5, issues = JInt 1, pullrequests = JInt 2, reviews = JInt 0,
              pr_repos = [\<lparr>owner = JStr ''Preocts'', name = JStr ''daystats''\<rparr>,
                          \<lparr>owner = JStr ''Preocts'', name = JStr ''small''\<rparr>]\<rparr>, [?q0])"
    by code_simp
  have f1: "fetch_pull_requests iso_seconds (logged ex_server) ''preocts'' (JStr ''Preocts'')
        (JStr ''small'') ex_start ex_end [?q0] =
        Some (Inr [ex_pr ''small'' ''2023-09-01T09:30:00Z'' 8],
              [?q0, ex_query ''small'' JNull, ex_query ''small'' (JStr ''c1'')])"
    by code_simp
  have f2: "fetch_pull_requests iso_seconds (logged ex_server) ''preocts'' (JStr ''Preocts'')
        (JStr ''daystats'') ex_start ex_end
        [?q0, ex_query ''small'' JNull, ex_query ''small'' (JStr ''c1'')] =
        Some (Inr [ex_pr ''daystats'' ''2023-09-01T14:51:04Z'' 5],
              [?q0, ex_query ''small'' JNull, ex_query ''small'' (JStr ''c1''),
               ex_query ''daystats'' JNull, ex_query ''daystats'' (JStr ''c1'')])"
    by code_simp
  have e: "get_stats iso_seconds (logged ex_server) rev ex_now 18000 ''preocts''
     (Some 2023) (Some 9) (Some 1) [] =
     Some (Inr (\<lparr>commits = JInt 5, issues = JInt 1, pullrequests = JInt 2, reviews = JInt 0,
                 pr_repos = [str_repo (''Preocts'', ''daystats''), str_repo (''Preocts'', ''small'')]\<rparr>,
                [ex_pr ''small'' ''2023-09-01T09:30:00Z'' 8,
                 ex_pr ''daystats'' ''2023-09-01T14:51:04Z'' 5]),
           [?q0, ex_query ''small'' JNull, ex_query ''small'' (JStr ''c1''),
            ex_query ''daystats'' JNull, ex_query ''daystats'' (JStr ''c1'')])"
    by (simp add: get_stats_def w fc a b f1 f2 str_repo_def)
  let ?c = "\<lparr>commits = JInt 5, issues = JInt 1, pullrequests = JInt 2, reviews = JInt 0,
              pr_repos = [str_repo (''Preocts'', ''daystats''), str_repo (''Preocts'', ''small'')]\<rparr>"
  from get_stats_orchestration [THEN iffD1, OF e] obtain start_dt end_dt s1 outs where
    h1: "build_bookend_times ex_now (Some 2023) (Some 9) (Some 1) = Inr (start_dt, end_dt)"
    and h2: "fetch_contributions (logged ex_server) ''preocts'' start_dt end_dt [] = (Inr ?c, s1)"
    and h3: "repo_results iso_seconds (logged ex_server) ''preocts'' start_dt end_dt
               (UTC_OFFSET 18000) (rev (pr_repos ?c)) s1 outs
               [ContribQuery ''preocts'' ''2023-09-01T00:00:00Z'' ''2023-09-01T23:59:59Z'',
                ex_query ''small'' JNull, ex_query ''small'' (JStr ''c1''),
                ex_query ''daystats'' JNull, ex_query ''daystats'' (JStr ''c1'')]"
    and h4: "[ex_pr ''small'' ''2023-09-01T09:30:00Z'' 8,
              ex_pr ''daystats'' ''2023-09-01T14:51:04Z'' 5] = concat outs"
    by blast
  from h1 w have se: "start_dt = mk_datetime 2023 9 1 0 0 0 0"
    "end_dt = mk_datetime 2023 9 1 23 59 59 0"
    by simp_all
  have r: "rev (pr_repos ?c) = [str_repo (''Preocts'', ''small''), str_repo (''Preocts'', ''daystats'')]"
    by simp
  from h2 h3 h4 have x: "\<exists>s1 outs.
      fetch_contributions (logged ex_server) ''preocts'' (mk_datetime 2023 9 1 0 0 0 0)
        (mk_datetime 2023 9 1 23 59 59 0) [] = (Inr ?c, s1) \<and>
      repo_results iso_seconds (logged ex_server) ''preocts'' (mk_datetime 2023 9 1 0 0 0 0)
        (mk_datetime 2023 9 1 23 59 59 0) (UTC_OFFSET 18000)
        [str_repo (''Preocts'', ''small''), str_repo (''Preocts'', ''daystats'')] s1 outs
        [ContribQuery ''preocts'' ''2023-09-01T00:00:00Z'' ''2023-09-01T23:59:59Z'',
         ex_query ''small'' JNull, ex_query ''small'' (JStr ''c1''),
         ex_query ''daystats'' JNull, ex_query ''daystats'' (JStr ''c1'')] \<and>
      [ex_pr ''small'' ''2023-09-01T09:30:00Z'' 8, ex_pr ''daystats'' ''2023-09-01T14:51:04Z'' 5] =
        concat outs"
    unfolding se r by blast
  from e a b x show ?thesis by (intro conjI)
qed

text \<open>
  \<^verbatim>\<open>UTC_OFFSET\<close> is the offset of the machine when that is a whole number of hours.
\<close>

lemma UTC_OFFSET_whole_hours:
  assumes "3600 dvd OFFSET"
  shows "UTC_OFFSET OFFSET = local_utc_offset OFFSET"
proof -
  from assms obtain k where k: "OFFSET = 3600 * k" by (auto simp: dvd_def)
  have "OFFSET div 60 div 60 = k" by (simp add: k div_mult2_eq [symmetric])
  then show ?thesis
    by (simp add: UTC_OFFSET_def timedelta_hours_def local_utc_offset_def k)
qed

text \<open>
  C3, as the specification states it: the pull requests of each repository are fetched
  for the window with the local UTC offset of the machine added to both ends. The code
  adds \<^verbatim>\<open>UTC_OFFSET\<close>, that offset cut to whole hours by floor division. On a machine at
  UTC+5:30 the window of 1 March 2023 is moved by six hours, to 18:00:00 of 28 February,
  where the offset of the machine gives 18:30:00. Called with the window in UTC, the
  fetcher returns the pull request of 18:15:00 on 1 March; \<^verbatim>\<open>get_stats\<close> returns the
  one of 18:10:00 on 28 February instead, which was created on the day before.
\<close>

theorem half_hour_offset_cut_to_whole_hours:
  "UTC_OFFSET (- 19800) = timedelta_hours (- 6) \<and>
   UTC_OFFSET (- 19800) \<noteq> local_utc_offset (- 19800) \<and>
   dt_add (mk_datetime 2023 3 1 0 0 0 0) (local_utc_offset (- 19800)) =
     Inr (mk_datetime 2023 2 28 18 30 0 0) \<and>
   dt_add (mk_datetime 2023 3 1 23 59 59 0) (local_utc_offset (- 19800)) =
     Inr (mk_datetime 2023 3 1 18 29 59 0) \<and>
   dt_add (mk_datetime 2023 3 1 0 0 0 0) (UTC_OFFSET (- 19800)) =
     Inr (mk_datetime 2023 2 28 18 0 0 0) \<and>
   dt_add (mk_datetime 2023 3 1 23 59 59 0) (UTC_OFFSET (- 19800)) =
     Inr (mk_datetime 2023 3 1 17 59 59 0) \<and>
   fetch_pull_requests iso_seconds (logged tz_server) ''preocts'' (JStr ''Preocts'')
     (JStr ''daystats'') (mk_datetime 2023 2 28 18 30 0 0) (mk_datetime 2023 3 1 18 29 59 0)
     [ContribQuery ''preocts'' ''2023-03-01T00:00:00Z'' ''2023-03-01T23:59:59Z''] =
     Some (Inr [ex_pr ''daystats'' ''2023-03-01T18:15:00Z'' 11],
           [ContribQuery ''preocts'' ''2023-03-01T00:00:00Z'' ''2023-03-01T23:59:59Z'',
            ex_query ''daystats'' JNull]) \<and>
   get_stats iso_seconds (logged tz_server) id tz_now (- 19800) ''preocts'' None None None [] =
     Some (Inr (\<lparr>commits = JInt 5, issues = JInt 1, pullrequests = JInt 2, reviews = JInt 0,
                 pr_repos = [str_repo (''Preocts'', ''daystats'')]\<rparr>,
                [ex_pr ''daystats'' ''2023-02-28T18:10:00Z'' 10]),
           [ContribQuery ''preocts'' ''2023-03-01T00:00:00Z'' ''2023-03-01T23:59:59Z'',
            ex_query ''daystats'' JNull, ex_query ''daystats'' (JStr ''c1'')])"
proof -
  let ?q0 = "ContribQuery ''preocts'' ''2023-03-01T00:00:00Z'' ''2023-03-01T23:59:59Z''"
  have u: "UTC_OFFSET (- 19800) = timedelta_hours (- 6)"
    by (simp add: UTC_OFFSET_def)
  have n: "UTC_OFFSET (- 19800) \<noteq> local_utc_offset (- 19800)"
    by (simp add: UTC_OFFSET_def timedelta_hours_def local_utc_offset_def)
  have t1: "dt_add (mk_datetime 2023 3 1 0 0 0 0) (local_utc_offset (- 19800)) =
              Inr (mk_datetime 2023 2 28 18 30 0 0)"
    by code_simp
  have t2: "dt_add (mk_datetime 2023 3 1 23 59 59 0) (local_utc_offset (- 19800)) =
              Inr (mk_datetime 2023 3 1 18 29 59 0)"
    by code_simp
  have a: "dt_add (mk_datetime 2023 3 1 0 0 0 0) (UTC_OFFSET (- 19800)) =
             Inr (mk_datetime 2023 2 28 18 0 0 0)"
    by code_simp
  have b: "dt_add (mk_datetime 2023 3 1 23 59 59 0) (UTC_OFFSET (- 19800)) =
             Inr (mk_datetime 2023 3 1 17 59 59 0)"
    by code_simp
  have w: "build_bookend_times tz_now None None None =
             Inr (mk_datetime 2023 3 1 0 0 0 0, mk_datetime 2023 3 1 23 59 59 0)"
    by code_simp
  have fc: "fetch_contributions (logged tz_server) ''preocts'' (mk_datetime 2023 3 1 0 0 0 0)
        (mk_datetime 2023 3 1 23 59 59 0) [] =
        (Inr \<lparr>commits = JInt 5, issues = JInt 1, pullrequests = JInt 2, reviews = JInt 0,
              pr_repos = [\<lparr>owner = JStr ''Preocts'', name = JStr ''daystats''\<rparr>]\<rparr>, [?q0])"
    by code_simp
  have f_utc: "fetch_pull_requests iso_seconds (logged tz_server) ''preocts'' (JStr ''Preocts'')
        (JStr ''daystats'') (mk_datetime 2023 2 28 18 30 0 0) (mk_datetime 2023 3 1 18 29 59 0)
        [?q0] =
        Some (Inr [ex_pr ''daystats'' ''2023-03-01T18:15:00Z'' 11],
              [?q0, ex_query ''daystats'' JNull])"
    by code_simp
  have f_code: "fetch_pull_requests iso_seconds (logged tz_server) ''preocts'' (JStr ''Preocts'')
        (JStr ''daystats'') (mk_datetime 2023 2 28 18 0 0 0) (mk_datetime 2023 3 1 17 59 59 0)
        [?q0] =
        Some (Inr [ex_pr ''daystats'' ''2023-02-28T18:10:00Z'' 10],
              [?q0, ex_query ''daystats'' JNull, ex_query ''daystats'' (JStr ''c1'')])"
    by code_simp
  have g: "get_stats iso_seconds (logged tz_server) id tz_now (- 19800) ''preocts''
        None None None [] =
     Some (Inr (\<lparr>commits = JInt 5, issues = JInt 1, pullrequests = JInt 2, reviews = JInt 0,
                 pr_repos = [str_repo (''Preocts'', ''daystats'')]\<rparr>,
                [ex_pr ''daystats'' ''2023-02-28T18:10:00Z'' 10]),
           [?q0, ex_query ''daystats'' JNull, ex_query ''daystats'' (JStr ''c1'')])"
    by (simp add: get_stats_def w fc a b f_code str_repo_def)
  from u n t1 t2 a b f_utc g show ?thesis by (intro conjI)
qed

text \<open>
  An exception other than that of the window builder leaves \<^verbatim>\<open>get_stats\<close> as well: for a
  login that does not exist the response has \<^verbatim>\<open>data\<close>, with a null user, and the
  contribution fetcher raises \<^verbatim>\<open>TypeError\<close>.
\<close>

lemma null_user_aborts_pipeline:
  "get_stats iso_seconds (logged null_user_server) id ex_now 18000 ''nobody'' None None None [] =
     Some (Inl TypeError,
           [ContribQuery ''nobody'' ''2023-09-01T00:00:00Z'' ''2023-09-01T23:59:59Z''])"
proof -
  have w: "build_bookend_times ex_now None None None =
             Inr (mk_datetime 2023 9 1 0 0 0 0, mk_datetime 2023 9 1 23 59 59 0)"
    by code_simp
  have fc: "fetch_contributions (logged null_user_server) ''nobody''
        (mk_datetime 2023 9 1 0 0 0 0) (mk_datetime 2023 9 1 23 59 59 0) [] =
        (Inl TypeError,
         [ContribQuery ''nobody'' ''2023-09-01T00:00:00Z'' ''2023-09-01T23:59:59Z''])"
    by code_simp
  show ?thesis by (simp add: get_stats_def w fc)
qed

end
